theory Spec2Isabelle
  imports Main "HOL-Library.Monad_Syntax"
begin

section \<open>Calendar dates\<close>

text \<open>
  Modelled from the spec: the calendar-date abstraction (DateCapability) is the external
  package imported in line 5 of useCalendar.ts; the spec lists its operations
  (addMonths, subtractMonths, startOfMonth, endOfMonth, compare, isSameDay, isSameMonth,
  dayOfWeek) and leaves the calendar itself open. Here a date is a triple of year, month
  (1 to 12) and day in the proleptic Gregorian calendar, with no limit on the year.
\<close>

record DateValue =
  year :: int
  month :: int
  day :: int

definition isLeapYear :: "int \<Rightarrow> bool" where
  "isLeapYear y = (y mod 4 = 0 \<and> (y mod 100 \<noteq> 0 \<or> y mod 400 = 0))"

definition getDaysInMonth :: "int \<Rightarrow> int \<Rightarrow> int" where
  "getDaysInMonth y m =
     (if m = 2 then (if isLeapYear y then 29 else 28)
      else if m = 4 \<or> m = 6 \<or> m = 9 \<or> m = 11 then 30
      else 31)"

text \<open>A date object of the package always names a real day.\<close>

definition validDate :: "DateValue \<Rightarrow> bool" where
  "validDate d =
     (1 \<le> DateValue.month d \<and> DateValue.month d \<le> 12 \<and> 1 \<le> day d \<and>
      day d \<le> getDaysInMonth (year d) (DateValue.month d))"

text \<open>The number of the day, counted from the day before 1 January of year 1.\<close>

definition daysBeforeYear :: "int \<Rightarrow> int" where
  "daysBeforeYear y = 365 * (y - 1) + (y - 1) div 4 - (y - 1) div 100 + (y - 1) div 400"

definition daysBeforeMonth :: "int \<Rightarrow> int \<Rightarrow> int" where
  "daysBeforeMonth y m = sum_list (map (getDaysInMonth y) [1..m - 1])"

definition dayNumber :: "DateValue \<Rightarrow> int" where
  "dayNumber d = daysBeforeYear (year d) + daysBeforeMonth (year d) (DateValue.month d) + day d"

text \<open>\<open>a.compare(b)\<close>: negative, zero or positive.\<close>

definition compareDates :: "DateValue \<Rightarrow> DateValue \<Rightarrow> int" where
  "compareDates a b = dayNumber a - dayNumber b"

text \<open>Day of the week, 0 for Sunday to 6 for Saturday (1 January of year 1 is a Monday).\<close>

definition dayOfWeek :: "DateValue \<Rightarrow> int" where
  "dayOfWeek d = dayNumber d mod 7"

definition startOfMonth :: "DateValue \<Rightarrow> DateValue" where
  "startOfMonth d = d\<lparr>day := 1\<rparr>"

definition endOfMonth :: "DateValue \<Rightarrow> DateValue" where
  "endOfMonth d = d\<lparr>day := getDaysInMonth (year d) (DateValue.month d)\<rparr>"

text \<open>
  \<open>d.add({ months: n })\<close>: the month moves by \<open>n\<close>, the year follows, and the day is
  cut down to the length of the month reached.
\<close>

definition addMonths :: "DateValue \<Rightarrow> int \<Rightarrow> DateValue" where
  "addMonths d n =
     (let idx = year d * 12 + (DateValue.month d - 1) + n;
          y = idx div 12;
          m = idx mod 12 + 1
      in \<lparr>year = y, DateValue.month = m, day = min (day d) (getDaysInMonth y m)\<rparr>)"

definition subtractMonths :: "DateValue \<Rightarrow> int \<Rightarrow> DateValue" where
  "subtractMonths d n = addMonths d (- n)"

definition nextDay :: "DateValue \<Rightarrow> DateValue" where
  "nextDay d =
     (if day d < getDaysInMonth (year d) (DateValue.month d) then d\<lparr>day := day d + 1\<rparr>
      else if DateValue.month d < 12
        then \<lparr>year = year d, DateValue.month = DateValue.month d + 1, day = 1\<rparr>
      else \<lparr>year = year d + 1, DateValue.month = 1, day = 1\<rparr>)"

definition prevDay :: "DateValue \<Rightarrow> DateValue" where
  "prevDay d =
     (if 1 < day d then d\<lparr>day := day d - 1\<rparr>
      else if 1 < DateValue.month d
        then \<lparr>year = year d, DateValue.month = DateValue.month d - 1,
              day = getDaysInMonth (year d) (DateValue.month d - 1)\<rparr>
      else \<lparr>year = year d - 1, DateValue.month = 12, day = 31\<rparr>)"

definition isSameDay :: "DateValue \<Rightarrow> DateValue \<Rightarrow> bool" where
  "isSameDay a b =
     (year a = year b \<and> DateValue.month a = DateValue.month b \<and> day a = day b)"

definition isSameMonth :: "DateValue \<Rightarrow> DateValue \<Rightarrow> bool" where
  "isSameMonth a b =
     (let a' = startOfMonth a; b' = startOfMonth b
      in year a' = year b' \<and> DateValue.month a' = DateValue.month b')"

text \<open>
  \<open>base.set({ ...value })\<close>: a copy of \<open>base\<close> that takes the year, month and day of
  \<open>value\<close>.
\<close>

definition setFields :: "DateValue \<Rightarrow> DateValue \<Rightarrow> DateValue" where
  "setFields base v = base\<lparr>year := year v, DateValue.month := DateValue.month v, day := day v\<rparr>"

section \<open>Helpers of the utils module\<close>

text \<open>
  Modelled from the spec: \<open>isAfter\<close> and \<open>isBefore\<close> are imported from the utils module,
  which is not among the sources; the spec uses them as "strictly after" and
  "strictly before".
\<close>

definition isAfter :: "DateValue \<Rightarrow> DateValue \<Rightarrow> bool" where
  "isAfter a b = (0 < compareDates a b)"

definition isBefore :: "DateValue \<Rightarrow> DateValue \<Rightarrow> bool" where
  "isBefore a b = (compareDates a b < 0)"

text \<open>The types of part\_000: a predicate on dates, and a month with its grid of days.\<close>

type_synonym Matcher = "DateValue \<Rightarrow> bool"

record MonthGrid =
  month :: DateValue
  dates :: "DateValue list"

subsection \<open>The month grid builder\<close>

text \<open>
  Modelled from the spec: \<open>createMonths\<close> is imported from the utils module, which is not
  among the sources. Section 4.1 of the spec gives its algorithm, followed here step by
  step. The loops that walk "until" a condition holds may not end, so they return an
  option: \<open>None\<close> is the loop that never stops.
\<close>

text \<open>Step 2: walk backward until the day of the week is the first day of the week.\<close>

partial_function (option) walkBackward :: "DateValue \<Rightarrow> int \<Rightarrow> DateValue option" where
  "walkBackward d w = (if dayOfWeek d = w then Some d else walkBackward (prevDay d) w)"

declare walkBackward.simps [code]

text \<open>Step 3: walk forward until the day of the week is the last day of the week.\<close>

partial_function (option) walkForward :: "DateValue \<Rightarrow> int \<Rightarrow> DateValue option" where
  "walkForward d w = (if dayOfWeek d = w then Some d else walkForward (nextDay d) w)"

declare walkForward.simps [code]

text \<open>Step 4: extend the end one week at a time until the grid has 42 days.\<close>

partial_function (option) extendWeeks :: "DateValue \<Rightarrow> DateValue \<Rightarrow> DateValue option" where
  "extendWeeks first lastd =
     (if compareDates lastd first + 1 < 42 then extendWeeks first ((nextDay ^^ 7) lastd)
      else Some lastd)"

declare extendWeeks.simps [code]

text \<open>Step 5: every day from the first to the last, both included.\<close>

partial_function (option) daysFromTo :: "DateValue \<Rightarrow> DateValue \<Rightarrow> DateValue list option" where
  "daysFromTo cur lastd =
     (if isAfter cur lastd then Some []
      else do { rest \<leftarrow> daysFromTo (nextDay cur) lastd; Some (cur # rest) })"

declare daysFromTo.simps [code]

definition createMonth :: "DateValue \<Rightarrow> int \<Rightarrow> bool \<Rightarrow> int \<Rightarrow> MonthGrid option" where
  "createMonth referenceDate weekStartsOn fixedWeeks i =
     (let monthDate = startOfMonth (addMonths referenceDate i) in
      do {
        first \<leftarrow> walkBackward (startOfMonth monthDate) weekStartsOn;
        lastNatural \<leftarrow> walkForward (endOfMonth monthDate) ((weekStartsOn + 6) mod 7);
        lastd \<leftarrow> (if fixedWeeks then extendWeeks first lastNatural else Some lastNatural);
        ds \<leftarrow> daysFromTo first lastd;
        Some \<lparr>MonthGrid.month = monthDate, dates = ds\<rparr>
      })"

text \<open>One grid for each index \<open>i\<close> with \<open>0 \<le> i < numberOfMonths\<close>, in order.\<close>

definition createMonths :: "DateValue \<Rightarrow> string \<Rightarrow> bool \<Rightarrow> int \<Rightarrow> int \<Rightarrow> MonthGrid list option"
  where
  "createMonths dateObj localeId fixedWeeks weekStartsOn numberOfMonths =
     those (map (createMonth dateObj weekStartsOn fixedWeeks) [0..numberOfMonths - 1])"

text \<open>For the proofs: the \<open>n\<close> days that start at \<open>a\<close>, each the day after the one before.\<close>

fun daysFrom :: "DateValue \<Rightarrow> nat \<Rightarrow> DateValue list" where
  "daysFrom a 0 = []"
| "daysFrom a (Suc n) = a # daysFrom (nextDay a) n"

section \<open>The selection state: useCalendarState\<close>

text \<open>The selection is absent, one date, or an array of dates.\<close>

datatype Selection = Undefined | Single DateValue | Array "DateValue list"

text \<open>
  The two predicates are called through \<open>?.\<close>, so each may be absent; an absent predicate
  yields \<open>undefined\<close>, which counts as false.
\<close>

record UseCalendarStateProps =
  isDateDisabled :: "Matcher option"
  isDateUnavailable :: "Matcher option"
  selection :: Selection

definition callMatcher :: "Matcher option \<Rightarrow> DateValue \<Rightarrow> bool" where
  "callMatcher f d = (case f of None \<Rightarrow> False | Some g \<Rightarrow> g d)"

definition isDateSelected :: "UseCalendarStateProps \<Rightarrow> DateValue \<Rightarrow> bool" where
  "isDateSelected props dateObj =
     (case selection props of
        Array sel \<Rightarrow> list_ex (\<lambda>d. isSameDay d dateObj) sel
      | Undefined \<Rightarrow> False
      | Single sel \<Rightarrow> isSameDay sel dateObj)"

text \<open>The \<open>for\<close> loop of \<open>isInvalid\<close>, lines 67 to 70, falling through to \<open>return false\<close>.\<close>

fun isInvalidLoop :: "UseCalendarStateProps \<Rightarrow> DateValue list \<Rightarrow> bool" where
  "isInvalidLoop props [] = False"
| "isInvalidLoop props (dateObj # rest) =
     (if callMatcher (UseCalendarStateProps.isDateDisabled props) dateObj then True
      else if callMatcher (UseCalendarStateProps.isDateUnavailable props) dateObj then True
      else isInvalidLoop props rest)"

definition isInvalid :: "UseCalendarStateProps \<Rightarrow> bool" where
  "isInvalid props =
     (case selection props of
        Array sel \<Rightarrow> (if sel = [] then False else isInvalidLoop props sel)
      | Undefined \<Rightarrow> False
      | Single sel \<Rightarrow>
          (if callMatcher (UseCalendarStateProps.isDateDisabled props) sel then True
           else if callMatcher (UseCalendarStateProps.isDateUnavailable props) sel then True
           else False))"

section \<open>The calendar controller: useCalendar\<close>

text \<open>
  The properties handed to \<open>useCalendar\<close>. A field read through \<open>toValue\<close> holds the value
  the caller supplies at the moment of the read; \<open>dateCursor\<close> is the current value of the
  shared reference, which the controller also writes. The field \<open>localeId\<close> is the
  source's \<open>locale\<close>.
\<close>

record UseCalendarProps =
  localeId :: string
  weekStartsOn :: int
  weekdayFormat :: string
  numberOfMonths :: int
  minValue :: "DateValue option"
  maxValue :: "DateValue option"
  disabled :: bool
  fixedWeeks :: bool
  pagedNavigation :: bool
  isDateDisabled :: "Matcher option"
  isDateUnavailable :: "Matcher option"
  dateCursor :: DateValue

text \<open>
  What the closure of \<open>useCalendar\<close> holds: the constants \<open>dateCursor\<close>, \<open>minValue\<close> and
  \<open>maxValue\<close> of lines 87 to 89, and the reactive \<open>months\<close>.
\<close>

record Calendar =
  dateCursor :: DateValue
  minValue :: "DateValue option"
  maxValue :: "DateValue option"
  months :: "MonthGrid list"

text \<open>Reading a property of \<open>undefined\<close> throws.\<close>

datatype error = TypeError

text \<open>
  A call returns \<open>None\<close> when a loop of the grid builder never stops, \<open>Some (Inl e)\<close> when
  it throws, and \<open>Some (Inr r)\<close> when it returns \<open>r\<close>.
\<close>

definition useCalendar :: "UseCalendarProps \<Rightarrow> (error + Calendar) option" where
  "useCalendar props =
     (let cursorCopy = UseCalendarProps.dateCursor props;
          minV = map_option (setFields cursorCopy) (UseCalendarProps.minValue props);
          maxV = map_option (setFields cursorCopy) (UseCalendarProps.maxValue props)
      in do {
        ms \<leftarrow> createMonths cursorCopy (localeId props) (fixedWeeks props) (weekStartsOn props)
               (numberOfMonths props);
        Some (Inr \<lparr>Calendar.dateCursor = cursorCopy, Calendar.minValue = minV,
                   Calendar.maxValue = maxV, months = ms\<rparr>)
      })"

definition visibleMonths :: "Calendar \<Rightarrow> DateValue list" where
  "visibleMonths cal = map MonthGrid.month (months cal)"

definition isOutsideVisibleView :: "Calendar \<Rightarrow> DateValue \<Rightarrow> bool" where
  "isOutsideVisibleView cal date = (\<not> list_ex (\<lambda>m. isSameMonth date m) (visibleMonths cal))"

definition isNextButtonDisabled :: "UseCalendarProps \<Rightarrow> Calendar \<Rightarrow> bool" where
  "isNextButtonDisabled props cal =
     (case Calendar.maxValue cal of
        None \<Rightarrow> False
      | Some maxV \<Rightarrow>
          if months cal = [] then False
          else if disabled props then True
          else (let lastMontInView = MonthGrid.month (last (months cal));
                    firstDayOfNextPage = startOfMonth (addMonths lastMontInView 1)
                in isAfter firstDayOfNextPage maxV))"

definition isPrevButtonDisabled :: "UseCalendarProps \<Rightarrow> Calendar \<Rightarrow> bool" where
  "isPrevButtonDisabled props cal =
     (case Calendar.minValue cal of
        None \<Rightarrow> False
      | Some minV \<Rightarrow>
          if months cal = [] then False
          else if disabled props then True
          else (let firstMonthInView = MonthGrid.month (hd (months cal));
                    lastDayOfPrevPage = endOfMonth (subtractMonths firstMonthInView 1)
                in isBefore lastDayOfPrevPage minV))"

definition isDateDisabled :: "UseCalendarProps \<Rightarrow> Calendar \<Rightarrow> DateValue \<Rightarrow> bool" where
  "isDateDisabled props cal dateObj =
     (if callMatcher (UseCalendarProps.isDateDisabled props) dateObj \<or> disabled props then True
      else if (case Calendar.maxValue cal of None \<Rightarrow> False
               | Some maxV \<Rightarrow> isAfter dateObj maxV) then True
      else if (case Calendar.minValue cal of None \<Rightarrow> False
               | Some minV \<Rightarrow> isBefore dateObj minV) then True
      else False)"

definition isDateUnavailable :: "UseCalendarProps \<Rightarrow> DateValue \<Rightarrow> bool" where
  "isDateUnavailable props date =
     (if callMatcher (UseCalendarProps.isDateUnavailable props) date then True else False)"

text \<open>
  \<open>nextPage\<close>, lines 148 to 161: the new grids are stored in \<open>months\<close> and the shared cursor
  is set. \<open>months.value[0]\<close> and \<open>newMonths[0]\<close> are \<open>undefined\<close> on an empty array, and
  reading \<open>.month\<close> of it throws. The result is the pair of the properties (with the
  cursor written) and the closure.
\<close>

definition nextPage ::
  "UseCalendarProps \<Rightarrow> Calendar \<Rightarrow> (error + UseCalendarProps \<times> Calendar) option" where
  "nextPage props cal =
     (case months cal of
        [] \<Rightarrow> Some (Inl TypeError)
      | g # _ \<Rightarrow>
          (let firstMonth = MonthGrid.month g in
           do {
             newMonths \<leftarrow> createMonths
               (addMonths firstMonth (if pagedNavigation props then numberOfMonths props else 1))
               (localeId props) (fixedWeeks props) (weekStartsOn props) (numberOfMonths props);
             (case newMonths of
                [] \<Rightarrow> Some (Inl TypeError)
              | n # _ \<Rightarrow>
                  Some (Inr (props\<lparr>UseCalendarProps.dateCursor := startOfMonth (MonthGrid.month n)\<rparr>,
                             cal\<lparr>months := newMonths\<rparr>)))
           }))"

text \<open>
  \<open>prevPage\<close>, lines 163 to 175: the new grids are computed and the shared cursor is set
  from them; \<open>months\<close> is not assigned.
\<close>

definition prevPage ::
  "UseCalendarProps \<Rightarrow> Calendar \<Rightarrow> (error + UseCalendarProps \<times> Calendar) option" where
  "prevPage props cal =
     (case months cal of
        [] \<Rightarrow> Some (Inl TypeError)
      | g # _ \<Rightarrow>
          (let firstMonth = MonthGrid.month g in
           do {
             newMonths \<leftarrow> createMonths
               (subtractMonths firstMonth
                  (if pagedNavigation props then numberOfMonths props else 1))
               (localeId props) (fixedWeeks props) (weekStartsOn props) (numberOfMonths props);
             (case newMonths of
                [] \<Rightarrow> Some (Inl TypeError)
              | n # _ \<Rightarrow>
                  Some (Inr (props\<lparr>UseCalendarProps.dateCursor := startOfMonth (MonthGrid.month n)\<rparr>,
                             cal)))
           }))"

text \<open>
  The callback of the watcher on the shared cursor, lines 178 to 188. The framework calls
  it after the cursor was written, with the cursor's value and the value the watcher saw
  before; writes made one after the other before the watcher runs are delivered as one
  call, with the last value written and the value seen before the first write.
\<close>

definition watchDateCursor ::
  "UseCalendarProps \<Rightarrow> Calendar \<Rightarrow> DateValue \<Rightarrow> DateValue \<Rightarrow> Calendar option" where
  "watchDateCursor props cal v oldValue =
     (if \<not> isSameMonth (setFields (Calendar.dateCursor cal) v)
                        (setFields (Calendar.dateCursor cal) oldValue)
      then do {
        ms \<leftarrow> createMonths (setFields (Calendar.dateCursor cal) v) (localeId props)
               (fixedWeeks props) (weekStartsOn props) (numberOfMonths props);
        Some (cal\<lparr>months := ms\<rparr>)
      }
      else Some cal)"

text \<open>
  Modelled from the spec: the formatter comes from \<open>useDateFormatter\<close>, which is not among
  the sources; the spec treats it as an opaque capability giving the name of the month and
  the label of the year of a date. It is a parameter here: the formatter for a locale.
\<close>

record DateFormatter =
  fullMonthAndYear :: "DateValue \<Rightarrow> string"
  fullMonth :: "DateValue \<Rightarrow> string"
  fullYear :: "DateValue \<Rightarrow> string"

definition headingValue :: "(string \<Rightarrow> DateFormatter) \<Rightarrow> UseCalendarProps \<Rightarrow> Calendar \<Rightarrow> string"
  where
  "headingValue useDateFormatter props cal =
     (let formatter = useDateFormatter (localeId props) in
      if months cal = [] then ''''
      else if length (months cal) = 1
        then fullMonthAndYear formatter (MonthGrid.month (hd (months cal)))
      else
        (let startMonth = MonthGrid.month (hd (months cal));
             endMonth = MonthGrid.month (last (months cal));
             startMonthName = fullMonth formatter startMonth;
             endMonthName = fullMonth formatter endMonth;
             startMonthYear = fullYear formatter startMonth;
             endMonthYear = fullYear formatter endMonth
         in if startMonthYear = endMonthYear
            then startMonthName @ '' - '' @ endMonthName @ '' '' @ endMonthYear
            else startMonthName @ '' '' @ startMonthYear @ '' - '' @ endMonthName @ '' '' @
                 endMonthYear))"

section \<open>Example inputs\<close>

text \<open>
  A calendar for January 2024 in locale en: one month shown, weeks starting on Sunday,
  no bounds, navigation by one month. The cursor is 15 January 2024.
\<close>

definition exampleProps :: UseCalendarProps where
  "exampleProps =
     \<lparr>localeId = ''en'', weekStartsOn = 0, weekdayFormat = ''short'', numberOfMonths = 1,
      UseCalendarProps.minValue = None, UseCalendarProps.maxValue = None, disabled = False,
      fixedWeeks = False, pagedNavigation = False, UseCalendarProps.isDateDisabled = None,
      UseCalendarProps.isDateUnavailable = None,
      UseCalendarProps.dateCursor = \<lparr>year = 2024, DateValue.month = 1, day = 15\<rparr>\<rparr>"

text \<open>
  The closure \<open>useCalendar\<close> builds from it: the grid of January 2024 runs from Sunday
  31 December 2023 to Saturday 3 February 2024.
\<close>

definition exampleCalendar :: Calendar where
  "exampleCalendar =
     \<lparr>Calendar.dateCursor = \<lparr>year = 2024, DateValue.month = 1, day = 15\<rparr>,
      Calendar.minValue = None, Calendar.maxValue = None,
      months = [\<lparr>MonthGrid.month = \<lparr>year = 2024, DateValue.month = 1, day = 1\<rparr>,
                 dates = daysFrom \<lparr>year = 2023, DateValue.month = 12, day = 31\<rparr> 35\<rparr>]\<rparr>"

text \<open>
  The same closure showing February 2024, whose grid runs from Sunday 28 January to
  Saturday 2 March.
\<close>

definition exampleCalendarFeb :: Calendar where
  "exampleCalendarFeb =
     exampleCalendar\<lparr>months :=
       [\<lparr>MonthGrid.month = \<lparr>year = 2024, DateValue.month = 2, day = 1\<rparr>,
         dates = daysFrom \<lparr>year = 2024, DateValue.month = 1, day = 28\<rparr> 35\<rparr>]\<rparr>"

text \<open>
  Modelled from the spec: a formatter for the locale en, after the examples of section 8
  of the spec ("June 2024", "June - July 2024", "December 2024 - January 2025"): the
  English name of the month, the year in decimal digits, and the two joined by a space.
\<close>

fun digitsOf :: "nat \<Rightarrow> string" where
  "digitsOf n =
     (if n < 10 then [char_of (48 + n)] else digitsOf (n div 10) @ [char_of (48 + n mod 10)])"

definition monthName :: "int \<Rightarrow> string" where
  "monthName m =
     (if m = 1 then ''January'' else if m = 2 then ''February'' else if m = 3 then ''March''
      else if m = 4 then ''April'' else if m = 5 then ''May'' else if m = 6 then ''June''
      else if m = 7 then ''July'' else if m = 8 then ''August''
      else if m = 9 then ''September'' else if m = 10 then ''October''
      else if m = 11 then ''November'' else ''December'')"

definition enFormatter :: DateFormatter where
  "enFormatter =
     \<lparr>fullMonthAndYear = (\<lambda>d. monthName (DateValue.month d) @ '' '' @ digitsOf (nat (year d))),
      fullMonth = (\<lambda>d. monthName (DateValue.month d)),
      fullYear = (\<lambda>d. digitsOf (nat (year d)))\<rparr>"

section \<open>Properties of the calendar dates\<close>

lemma getDaysInMonth_bounds: "28 \<le> getDaysInMonth y m \<and> getDaysInMonth y m \<le> 31"
  by (simp add: getDaysInMonth_def)

lemma daysBeforeMonth_first: "daysBeforeMonth y 1 = 0"
  by (simp add: daysBeforeMonth_def)

lemma daysBeforeMonth_step:
  "1 \<le> m \<Longrightarrow> daysBeforeMonth y (m + 1) = daysBeforeMonth y m + getDaysInMonth y m"
  by (simp add: daysBeforeMonth_def upto_rec2)

lemma daysBeforeMonth_last:
  "daysBeforeMonth y 12 = (if isLeapYear y then 335 else 334)"
proof -
  have e: "[1..12 - 1] = [1, 2, 3, 4, 5, 6, 7, 8, 9, 10, 11 :: int]" by code_simp
  show ?thesis unfolding daysBeforeMonth_def e by (simp add: getDaysInMonth_def)
qed

lemma div_step:
  assumes "0 < (k::int)"
  shows "y div k = (y - 1) div k + (if y mod k = 0 then 1 else 0)"
proof (cases "y mod k = 0")
  case True
  have e: "k * (y div k) = y" using True by auto
  have "k * (y div k - 1) + (k - 1) = k * (y div k) - 1" by (simp add: algebra_simps)
  then have "y - 1 = k * (y div k - 1) + (k - 1)" using e by simp
  then have "(y - 1) div k = y div k - 1"
    by (rule int_div_pos_eq) (use assms in simp_all)
  with True show ?thesis by simp
next
  case False
  have "0 \<le> y mod k" "y mod k < k" using assms by simp_all
  with False have r: "0 \<le> y mod k - 1" "y mod k - 1 < k" by simp_all
  have "k * (y div k) + y mod k = y" by simp
  then have "y - 1 = k * (y div k) + (y mod k - 1)" by simp
  then have "(y - 1) div k = y div k"
    using r by (rule int_div_pos_eq)
  with False show ?thesis by simp
qed

lemma mod_dvd_trans:
  fixes y :: int
  assumes "a dvd b" "y mod b = 0"
  shows "y mod a = 0"
proof -
  have "b dvd y" using assms(2) by (simp only: dvd_eq_mod_eq_0)
  with assms(1) have "a dvd y" by (rule dvd_trans)
  then show ?thesis by (simp only: dvd_eq_mod_eq_0)
qed
lemma mod_100_4: "(y::int) mod 100 = 0 \<Longrightarrow> y mod 4 = 0"
  by (rule mod_dvd_trans [of 4 100]) simp_all
lemma mod_400_100: "(y::int) mod 400 = 0 \<Longrightarrow> y mod 100 = 0"
  by (rule mod_dvd_trans [of 100 400]) simp_all

lemma leap_arith:
  fixes y d4 d100 d400 q4 q100 q400 :: int
  assumes "d4 = q4 + (if m4 then 1 else 0)" "d100 = q100 + (if m100 then 1 else 0)"
    "d400 = q400 + (if m400 then 1 else 0)" "m100 \<longrightarrow> m4" "m400 \<longrightarrow> m100"
  shows "365 * y + d4 - d100 + d400 =
    365 * (y - 1) + q4 - q100 + q400 + (if m4 \<and> (\<not> m100 \<or> m400) then 366 else 365)"
proof -
  have "365 * (y - 1) = 365 * y - 365" by (simp add: algebra_simps)
  then show ?thesis using assms by (cases m4; cases m100; cases m400) simp_all
qed

lemma daysBeforeYear_step:
  "daysBeforeYear (y + 1) = daysBeforeYear y + (if isLeapYear y then 366 else 365)"
proof -
  have a: "y div 4 = (y - 1) div 4 + (if y mod 4 = 0 then 1 else 0)"
    by (rule div_step) simp
  have b: "y div 100 = (y - 1) div 100 + (if y mod 100 = 0 then 1 else 0)"
    by (rule div_step) simp
  have c: "y div 400 = (y - 1) div 400 + (if y mod 400 = 0 then 1 else 0)"
    by (rule div_step) simp
  have "365 * y + y div 4 - y div 100 + y div 400 =
    365 * (y - 1) + (y - 1) div 4 - (y - 1) div 100 + (y - 1) div 400 +
    (if y mod 4 = 0 \<and> (\<not> y mod 100 = 0 \<or> y mod 400 = 0) then 366 else 365)"
    using a b c by (rule leap_arith) (auto intro: mod_100_4 mod_400_100)
  moreover have "y + 1 - 1 = y" by simp
  ultimately show ?thesis unfolding daysBeforeYear_def isLeapYear_def by (simp only:)
qed

lemma dayNumber_nextDay:
  assumes "validDate d"
  shows "dayNumber (nextDay d) = dayNumber d + 1"
proof (cases "day d < getDaysInMonth (year d) (DateValue.month d)")
  case True
  then show ?thesis by (simp add: nextDay_def dayNumber_def)
next
  case last: False
  with assms have dd: "day d = getDaysInMonth (year d) (DateValue.month d)"
    by (simp add: validDate_def)
  show ?thesis
  proof (cases "DateValue.month d < 12")
    case True
    from assms have "1 \<le> DateValue.month d" by (simp add: validDate_def)
    then show ?thesis using True last dd
      by (simp add: nextDay_def dayNumber_def daysBeforeMonth_step)
  next
    case False
    with assms have m: "DateValue.month d = 12" by (simp add: validDate_def)
    then show ?thesis using last dd
      by (simp add: nextDay_def dayNumber_def daysBeforeMonth_first daysBeforeMonth_last
          daysBeforeYear_step getDaysInMonth_def)
  qed
qed

lemma validDate_nextDay: "validDate d \<Longrightarrow> validDate (nextDay d)"
  using getDaysInMonth_bounds [of "year d" "DateValue.month d + 1"]
    getDaysInMonth_bounds [of "year d + 1" 1]
  by (auto simp add: validDate_def nextDay_def)

lemma dayNumber_prevDay:
  assumes "validDate d"
  shows "dayNumber (prevDay d) = dayNumber d - 1"
proof (cases "1 < day d")
  case True
  then show ?thesis by (simp add: prevDay_def dayNumber_def)
next
  case first: False
  with assms have dd: "day d = 1" by (simp add: validDate_def)
  show ?thesis
  proof (cases "1 < DateValue.month d")
    case True
    then have "daysBeforeMonth (year d) (DateValue.month d - 1 + 1) =
      daysBeforeMonth (year d) (DateValue.month d - 1) +
      getDaysInMonth (year d) (DateValue.month d - 1)"
      by (intro daysBeforeMonth_step) simp
    then show ?thesis using True first dd
      by (simp add: prevDay_def dayNumber_def)
  next
    case False
    with assms have m: "DateValue.month d = 1" by (simp add: validDate_def)
    have "daysBeforeYear (year d - 1 + 1) =
      daysBeforeYear (year d - 1) + (if isLeapYear (year d - 1) then 366 else 365)"
      by (rule daysBeforeYear_step)
    then show ?thesis using first dd m
      by (simp add: prevDay_def dayNumber_def daysBeforeMonth_first daysBeforeMonth_last)
  qed
qed

lemma validDate_prevDay: "validDate d \<Longrightarrow> validDate (prevDay d)"
  using getDaysInMonth_bounds [of "year d" "DateValue.month d - 1"]
  by (auto simp add: validDate_def prevDay_def getDaysInMonth_def)



lemma mod7_pred: "(x::int) mod 7 = int (Suc k) \<Longrightarrow> (x - 1) mod 7 = int k"
proof -
  assume a: "x mod 7 = int (Suc k)"
  have "x mod 7 < 7" by simp
  with a have k: "int k < 6" by simp
  have "(x - 1) mod 7 = (x mod 7 - 1) mod 7" by (simp add: mod_diff_left_eq)
  also have "\<dots> = int k mod 7" using a by simp
  also have "\<dots> = int k" using k by simp
  finally show ?thesis .
qed
lemma mod7_zero: "0 \<le> w \<Longrightarrow> w < 7 \<Longrightarrow> (x - w) mod 7 = 0 \<Longrightarrow> x mod 7 = (w::int)"
proof -
  assume w: "0 \<le> w" "w < 7" and a: "(x - w) mod 7 = 0"
  have "x mod 7 = ((x - w) + w) mod 7" by simp
  also have "\<dots> = ((x - w) mod 7 + w) mod 7" by (simp only: mod_add_left_eq)
  also have "\<dots> = w" using a w by simp
  finally show ?thesis .
qed
lemma mod7_nonzero: "(x - w) mod 7 = int (Suc k) \<Longrightarrow> x mod 7 \<noteq> (w::int)"
proof
  assume a: "(x - w) mod 7 = int (Suc k)" and e: "x mod 7 = w"
  have "(x - w) mod 7 = (x mod 7 - w) mod 7" by (simp add: mod_diff_left_eq)
  with e have "(x - w) mod 7 = 0" by simp
  with a show False by simp
qed
lemma mod7_zero': "0 \<le> w \<Longrightarrow> w < 7 \<Longrightarrow> (w - x) mod 7 = 0 \<Longrightarrow> x mod 7 = (w::int)"
proof -
  assume w: "0 \<le> w" "w < 7" and a: "(w - x) mod 7 = 0"
  then have "7 dvd (w - x)" by (simp add: dvd_eq_mod_eq_0)
  then have "7 dvd (x - w)" by (metis dvd_minus_iff minus_diff_eq)
  then have "(x - w) mod 7 = 0" by simp
  with w show ?thesis by (rule mod7_zero)
qed
lemma mod7_nonzero': "(w - x) mod 7 = int (Suc k) \<Longrightarrow> x mod 7 \<noteq> (w::int)"
proof
  assume a: "(w - x) mod 7 = int (Suc k)" and e: "x mod 7 = w"
  have "(w - x) mod 7 = (w - x mod 7) mod 7" by (simp add: mod_diff_right_eq)
  with e have "(w - x) mod 7 = 0" by simp
  with a show False by simp
qed
lemma mod7_succ: "(w - x) mod 7 = int (Suc k) \<Longrightarrow> (w - (x + 1)) mod 7 = int k"
  using mod7_pred [of "w - x" k] by (simp add: algebra_simps)
lemma mod7_pred2: "(x - w) mod 7 = int (Suc k) \<Longrightarrow> (x - 1 - w) mod 7 = int k"
  using mod7_pred [of "x - w" k] by (simp add: algebra_simps)

lemma funpow_nextDay:
  "validDate d \<Longrightarrow> validDate ((nextDay ^^ n) d) \<and> dayNumber ((nextDay ^^ n) d) = dayNumber d + int n"
proof (induction n)
  case 0
  then show ?case by simp
next
  case (Suc n)
  then have v: "validDate ((nextDay ^^ n) d)"
    and e: "dayNumber ((nextDay ^^ n) d) = dayNumber d + int n" by simp_all
  have s: "(nextDay ^^ Suc n) d = nextDay ((nextDay ^^ n) d)" by simp
  have a: "validDate ((nextDay ^^ Suc n) d)" unfolding s using v by (rule validDate_nextDay)
  have "dayNumber ((nextDay ^^ Suc n) d) = dayNumber ((nextDay ^^ n) d) + 1"
    unfolding s using v by (rule dayNumber_nextDay)
  also have "\<dots> = dayNumber d + int (Suc n)" unfolding e by simp
  finally show ?case using a by blast
qed

lemma walkBackward_here: "0 \<le> w \<Longrightarrow> w < 7 \<Longrightarrow> (dayNumber d - w) mod 7 = int 0 \<Longrightarrow> dayOfWeek d = w"
  unfolding dayOfWeek_def by (rule mod7_zero) simp_all
lemma walkBackward_stop: "dayOfWeek d = w \<Longrightarrow> walkBackward d w = Some d"
  by (subst walkBackward.simps) simp
lemma walkBackward_more: "dayOfWeek d \<noteq> w \<Longrightarrow> walkBackward d w = walkBackward (prevDay d) w"
  by (subst walkBackward.simps) simp
lemma walkBackward_not_here: "(dayNumber d - w) mod 7 = int (Suc k) \<Longrightarrow> dayOfWeek d \<noteq> w"
  unfolding dayOfWeek_def by (rule mod7_nonzero)

lemma walkBackward_result:
  assumes "validDate d" "0 \<le> w" "w < 7" "(dayNumber d - w) mod 7 = int k"
  shows "\<exists>r. walkBackward d w = Some r \<and> validDate r \<and> dayOfWeek r = w \<and>
           dayNumber r = dayNumber d - int k"
  using assms
proof (induction k arbitrary: d)
  case 0
  have dw: "dayOfWeek d = w" using "0.prems"(2,3,4) by (rule walkBackward_here)
  then have "walkBackward d w = Some d" by (rule walkBackward_stop)
  moreover have "dayNumber d = dayNumber d - int 0" by simp
  ultimately show ?case using "0.prems"(1) dw by blast
next
  case (Suc k)
  have ne: "dayOfWeek d \<noteq> w" using Suc.prems(4) by (rule walkBackward_not_here)
  have v: "validDate (prevDay d)" using Suc.prems(1) by (rule validDate_prevDay)
  have n: "dayNumber (prevDay d) = dayNumber d - 1" using Suc.prems(1) by (rule dayNumber_prevDay)
  have "(dayNumber d - 1 - w) mod 7 = int k" using Suc.prems(4) by (rule mod7_pred2)
  then have "(dayNumber (prevDay d) - w) mod 7 = int k" by (simp only: n)
  from Suc.IH [OF v Suc.prems(2,3) this] obtain r where
    r: "walkBackward (prevDay d) w = Some r" "validDate r" "dayOfWeek r = w"
       "dayNumber r = dayNumber (prevDay d) - int k" by blast
  have "walkBackward d w = Some r" using walkBackward_more [OF ne] r(1) by (simp only:)
  moreover have "dayNumber r = dayNumber d - int (Suc k)" unfolding r(4) n by simp
  ultimately show ?case using r(2,3) by blast
qed

lemma walkForward_here: "0 \<le> w \<Longrightarrow> w < 7 \<Longrightarrow> (w - dayNumber d) mod 7 = int 0 \<Longrightarrow> dayOfWeek d = w"
  unfolding dayOfWeek_def by (rule mod7_zero') simp_all
lemma walkForward_stop: "dayOfWeek d = w \<Longrightarrow> walkForward d w = Some d"
  by (subst walkForward.simps) simp
lemma walkForward_more: "dayOfWeek d \<noteq> w \<Longrightarrow> walkForward d w = walkForward (nextDay d) w"
  by (subst walkForward.simps) simp
lemma walkForward_not_here: "(w - dayNumber d) mod 7 = int (Suc k) \<Longrightarrow> dayOfWeek d \<noteq> w"
  unfolding dayOfWeek_def by (rule mod7_nonzero')

lemma walkForward_result:
  assumes "validDate d" "0 \<le> w" "w < 7" "(w - dayNumber d) mod 7 = int k"
  shows "\<exists>r. walkForward d w = Some r \<and> validDate r \<and> dayOfWeek r = w \<and>
           dayNumber r = dayNumber d + int k"
  using assms
proof (induction k arbitrary: d)
  case 0
  have dw: "dayOfWeek d = w" using "0.prems"(2,3,4) by (rule walkForward_here)
  then have "walkForward d w = Some d" by (rule walkForward_stop)
  moreover have "dayNumber d = dayNumber d + int 0" by simp
  ultimately show ?case using "0.prems"(1) dw by blast
next
  case (Suc k)
  have ne: "dayOfWeek d \<noteq> w" using Suc.prems(4) by (rule walkForward_not_here)
  have v: "validDate (nextDay d)" using Suc.prems(1) by (rule validDate_nextDay)
  have n: "dayNumber (nextDay d) = dayNumber d + 1" using Suc.prems(1) by (rule dayNumber_nextDay)
  have "(w - (dayNumber d + 1)) mod 7 = int k" using Suc.prems(4) by (rule mod7_succ)
  then have "(w - dayNumber (nextDay d)) mod 7 = int k" by (simp only: n)
  from Suc.IH [OF v Suc.prems(2,3) this] obtain r where
    r: "walkForward (nextDay d) w = Some r" "validDate r" "dayOfWeek r = w"
       "dayNumber r = dayNumber (nextDay d) + int k" by blast
  have "walkForward d w = Some r" using walkForward_more [OF ne] r(1) by (simp only:)
  moreover have "dayNumber r = dayNumber d + int (Suc k)" unfolding r(4) n by simp
  ultimately show ?case using r(2,3) by blast
qed

lemma extendWeeks_stop: "\<not> compareDates l f + 1 < 42 \<Longrightarrow> extendWeeks f l = Some l"
  by (subst extendWeeks.simps) simp
lemma extendWeeks_more:
  "compareDates l f + 1 < 42 \<Longrightarrow> extendWeeks f l = extendWeeks f ((nextDay ^^ 7) l)"
  by (subst extendWeeks.simps) simp

lemma extendWeeks_result:
  assumes "validDate l" "dayNumber l - dayNumber f + 1 = 42 - 7 * int k"
  shows "\<exists>r. extendWeeks f l = Some r \<and> validDate r \<and> dayNumber r - dayNumber f + 1 = 42"
  using assms
proof (induction k arbitrary: l)
  case 0
  have "\<not> compareDates l f + 1 < 42" using "0.prems"(2) by (simp add: compareDates_def)
  then have "extendWeeks f l = Some l" by (rule extendWeeks_stop)
  moreover have "dayNumber l - dayNumber f + 1 = 42" using "0.prems"(2) by simp
  ultimately show ?case using "0.prems"(1) by blast
next
  case (Suc k)
  have v: "validDate ((nextDay ^^ 7) l)" and n: "dayNumber ((nextDay ^^ 7) l) = dayNumber l + 7"
    using funpow_nextDay [OF Suc.prems(1), of 7] by simp_all
  have "dayNumber ((nextDay ^^ 7) l) - dayNumber f + 1 = 42 - 7 * int k"
    unfolding n using Suc.prems(2) by simp
  from Suc.IH [OF v this] obtain r where
    r: "extendWeeks f ((nextDay ^^ 7) l) = Some r" "validDate r"
       "dayNumber r - dayNumber f + 1 = 42" by blast
  have "compareDates l f + 1 < 42" using Suc.prems(2) by (simp add: compareDates_def)
  then have "extendWeeks f l = Some r" using r(1) by (simp only: extendWeeks_more)
  with r(2,3) show ?case by blast
qed

lemma daysFromTo_stop: "isAfter a b \<Longrightarrow> daysFromTo a b = Some []"
  by (subst daysFromTo.simps) simp
lemma daysFromTo_more:
  "\<not> isAfter a b \<Longrightarrow> daysFromTo (nextDay a) b = Some xs \<Longrightarrow> daysFromTo a b = Some (a # xs)"
  by (subst daysFromTo.simps) simp

lemma daysFromTo_result:
  assumes "validDate a" "dayNumber b - dayNumber a + 1 = int n"
  shows "daysFromTo a b = Some (daysFrom a n)"
  using assms
proof (induction n arbitrary: a)
  case 0
  have "isAfter a b" using "0.prems"(2) by (simp add: isAfter_def compareDates_def)
  then show ?case by (simp only: daysFromTo_stop daysFrom.simps)
next
  case (Suc n)
  have v: "validDate (nextDay a)" using Suc.prems(1) by (rule validDate_nextDay)
  have n: "dayNumber (nextDay a) = dayNumber a + 1" using Suc.prems(1) by (rule dayNumber_nextDay)
  have "dayNumber b - dayNumber (nextDay a) + 1 = int n"
    unfolding n using Suc.prems(2) by simp
  from Suc.IH [OF v this] have i: "daysFromTo (nextDay a) b = Some (daysFrom (nextDay a) n)" .
  have "\<not> isAfter a b" using Suc.prems(2) by (simp add: isAfter_def compareDates_def)
  then have "daysFromTo a b = Some (a # daysFrom (nextDay a) n)" using i by (rule daysFromTo_more)
  then show ?case by (simp only: daysFrom.simps)
qed

lemma length_daysFrom: "length (daysFrom a n) = n"
  by (induction n arbitrary: a) simp_all

lemma daysFrom_nth: "i < n \<Longrightarrow> daysFrom a n ! i = (nextDay ^^ i) a"
proof (induction n arbitrary: a i)
  case 0
  then show ?case by simp
next
  case (Suc n)
  then show ?case by (cases i) (simp_all add: funpow_swap1)
qed

lemma daysFrom_step:
  "Suc i < n \<Longrightarrow> daysFrom a n ! Suc i = nextDay (daysFrom a n ! i)"
  by (simp add: daysFrom_nth)

lemma week_span:
  fixes a b w :: int
  assumes "a mod 7 = (w + 6) mod 7" "b mod 7 = w"
  shows "(a - b + 1) mod 7 = 0"
proof -
  have "b mod 7 = w mod 7" using assms(2) by (metis mod_mod_trivial)
  with assms(1) have "(a - b) mod 7 = (w + 6 - w) mod 7" by (rule mod_diff_cong)
  then have "(a - b + 1) mod 7 = (w + 6 - w + 1) mod 7" by (rule mod_add_cong) (rule refl)
  also have "w + 6 - w + 1 = 7" by simp
  finally show ?thesis by simp
qed

lemma week_count:
  fixes c :: int
  assumes "c mod 7 = 0" "28 \<le> c" "c \<le> 43"
  shows "\<exists>k. c = 42 - 7 * int k \<and> k \<le> 2"
proof -
  from assms(1) have "7 dvd c" by (simp only: dvd_eq_mod_eq_0)
  then obtain j where j: "c = 7 * j" by (rule dvdE)
  from assms(2,3) have "4 \<le> j" "j \<le> 6" unfolding j by simp_all
  then have "c = 42 - 7 * int (nat (6 - j))" "nat (6 - j) \<le> 2" unfolding j by simp_all
  then show ?thesis by blast
qed

lemma validDate_startOfMonth_addMonths: "validDate (startOfMonth (addMonths d i))"
proof -
  have "0 \<le> (year d * 12 + (DateValue.month d - 1) + i) mod 12"
    "(year d * 12 + (DateValue.month d - 1) + i) mod 12 < 12"
    by (rule pos_mod_sign, simp) (rule pos_mod_bound, simp)
  then show ?thesis
    using getDaysInMonth_bounds [of "(year d * 12 + (DateValue.month d - 1) + i) div 12"
      "(year d * 12 + (DateValue.month d - 1) + i) mod 12 + 1"]
    by (simp add: validDate_def startOfMonth_def addMonths_def Let_def)
qed

lemma day_startOfMonth: "day (startOfMonth d) = 1"
  by (simp add: startOfMonth_def)

lemma startOfMonth_idem: "startOfMonth (startOfMonth d) = startOfMonth d"
  by (simp add: startOfMonth_def)

lemma validDate_endOfMonth: "validDate m \<Longrightarrow> validDate (endOfMonth m)"
  using getDaysInMonth_bounds [of "year m" "DateValue.month m"]
  by (simp add: validDate_def endOfMonth_def)

lemma dayNumber_endOfMonth:
  "day m = 1 \<Longrightarrow>
   dayNumber (endOfMonth m) = dayNumber m + getDaysInMonth (year m) (DateValue.month m) - 1"
  by (simp add: dayNumber_def endOfMonth_def)

lemma createMonth_unfold:
  assumes "m = startOfMonth (addMonths d i)"
    "walkBackward (startOfMonth m) w = Some first"
    "walkForward (endOfMonth m) ((w + 6) mod 7) = Some lastN"
    "(if fw then extendWeeks first lastN else Some lastN) = Some l"
    "daysFromTo first l = Some ds"
  shows "createMonth d w fw i = Some \<lparr>MonthGrid.month = m, dates = ds\<rparr>"
  using assms(2-5) unfolding createMonth_def Let_def assms(1) [symmetric] by simp

lemma createMonth_result:
  assumes "0 \<le> w" "w \<le> 6"
  shows "\<exists>first n. createMonth d w fw i =
           Some \<lparr>MonthGrid.month = startOfMonth (addMonths d i), dates = daysFrom first n\<rparr> \<and>
           validDate first \<and> dayOfWeek first = w \<and> n mod 7 = 0 \<and> 28 \<le> n \<and> n \<le> 42 \<and>
           (fw \<longrightarrow> n = 42)"
proof -
  define m where "m = startOfMonth (addMonths d i)"
  have vm: "validDate m" unfolding m_def by (rule validDate_startOfMonth_addMonths)
  have dm: "day m = 1" unfolding m_def by (rule day_startOfMonth)
  have sm: "startOfMonth m = m" unfolding m_def by (rule startOfMonth_idem)
  define dim where "dim = getDaysInMonth (year m) (DateValue.month m)"
  have dimb: "28 \<le> dim" "dim \<le> 31" unfolding dim_def using getDaysInMonth_bounds by simp_all
  have ve: "validDate (endOfMonth m)" using vm by (rule validDate_endOfMonth)
  have ne: "dayNumber (endOfMonth m) = dayNumber m + dim - 1"
    unfolding dim_def using dm by (rule dayNumber_endOfMonth)
  have w7: "w < 7" using assms(2) by simp
  define k1 where "k1 = nat ((dayNumber m - w) mod 7)"
  have k1: "(dayNumber m - w) mod 7 = int k1" unfolding k1_def by simp
  have "(dayNumber m - w) mod 7 < 7" by (rule pos_mod_bound) simp
  then have k1b: "int k1 \<le> 6" unfolding k1 by simp
  from walkBackward_result [OF vm assms(1) w7 k1] obtain first where
    f: "walkBackward m w = Some first" "validDate first" "dayOfWeek first = w"
       "dayNumber first = dayNumber m - int k1" by blast
  define w' where "w' = (w + 6) mod 7"
  have w'b: "0 \<le> w'" "w' < 7" unfolding w'_def by (rule pos_mod_sign, simp) (rule pos_mod_bound, simp)
  define k2 where "k2 = nat ((w' - dayNumber (endOfMonth m)) mod 7)"
  have k2: "(w' - dayNumber (endOfMonth m)) mod 7 = int k2" unfolding k2_def by simp
  have "(w' - dayNumber (endOfMonth m)) mod 7 < 7" by (rule pos_mod_bound) simp
  then have k2b: "int k2 \<le> 6" unfolding k2 by simp
  from walkForward_result [OF ve w'b k2] obtain lastN where
    l: "walkForward (endOfMonth m) w' = Some lastN" "validDate lastN" "dayOfWeek lastN = w'"
       "dayNumber lastN = dayNumber (endOfMonth m) + int k2" by blast
  define c where "c = dayNumber lastN - dayNumber first + 1"
  have c_eq: "c = dim + int k1 + int k2" unfolding c_def l(4) f(4) ne by simp
  have cb: "28 \<le> c" "c \<le> 43" unfolding c_eq using dimb k1b k2b by simp_all
  have "dayNumber lastN mod 7 = (w + 6) mod 7" using l(3) unfolding dayOfWeek_def w'_def .
  moreover have "dayNumber first mod 7 = w" using f(3) unfolding dayOfWeek_def .
  ultimately have cmod: "c mod 7 = 0" unfolding c_def by (rule week_span)
  from week_count [OF cmod cb] obtain k where k: "c = 42 - 7 * int k" by blast
  then have c42: "c \<le> 42" by simp
  have cn: "int (nat c) = c" using cb(1) by simp
  have fs: "walkBackward (startOfMonth m) w = Some first" unfolding sm by (rule f(1))
  have ls: "walkForward (endOfMonth m) ((w + 6) mod 7) = Some lastN"
    using l(1) unfolding w'_def .
  show ?thesis
  proof (cases fw)
    case True
    have "dayNumber lastN - dayNumber first + 1 = 42 - 7 * int k" using k unfolding c_def .
    from extendWeeks_result [OF l(2) this] obtain r where
      r: "extendWeeks first lastN = Some r" "validDate r"
         "dayNumber r - dayNumber first + 1 = 42" by blast
    have "dayNumber r - dayNumber first + 1 = int 42" using r(3) by simp
    with f(2) have "daysFromTo first r = Some (daysFrom first 42)" by (rule daysFromTo_result)
    moreover have "(if fw then extendWeeks first lastN else Some lastN) = Some r"
      using True r(1) by simp
    ultimately have "createMonth d w fw i =
        Some \<lparr>MonthGrid.month = m, dates = daysFrom first 42\<rparr>"
      using m_def fs ls by (intro createMonth_unfold)
    then show ?thesis using f(2,3) unfolding m_def by (intro exI [of _ first] exI [of _ 42]) simp
  next
    case False
    have "dayNumber lastN - dayNumber first + 1 = int (nat c)" using cn unfolding c_def by simp
    with f(2) have "daysFromTo first lastN = Some (daysFrom first (nat c))"
      by (rule daysFromTo_result)
    moreover have "(if fw then extendWeeks first lastN else Some lastN) = Some lastN"
      using False by simp
    ultimately have cm: "createMonth d w fw i =
        Some \<lparr>MonthGrid.month = m, dates = daysFrom first (nat c)\<rparr>"
      using m_def fs ls by (intro createMonth_unfold)
    have "7 dvd c" using cmod by (simp only: dvd_eq_mod_eq_0)
    then obtain j where j: "c = 7 * j" by (rule dvdE)
    have "0 \<le> j" using cb(1) unfolding j by simp
    then have "nat c = 7 * nat j" unfolding j by (simp add: nat_mult_distrib)
    then have nm: "nat c mod 7 = 0" by simp
    have nb: "28 \<le> nat c" "nat c \<le> 42" using cb(1) c42 by simp_all
    show ?thesis using cm f(2,3) nm nb False unfolding m_def
      by (intro exI [of _ first] exI [of _ "nat c"]) simp
  qed
qed

lemma those_map_Some:
  "(\<And>x. x \<in> set xs \<Longrightarrow> f x \<noteq> None) \<Longrightarrow> those (map f xs) = Some (map (\<lambda>x. the (f x)) xs)"
proof (induction xs)
  case Nil
  then show ?case by simp
next
  case (Cons a xs)
  have "f a \<noteq> None" by (rule Cons.prems) simp
  then obtain y where y: "f a = Some y" by blast
  have "those (map f xs) = Some (map (\<lambda>x. the (f x)) xs)"
    by (rule Cons.IH) (simp add: Cons.prems)
  then show ?case by (simp add: y)
qed

lemma createMonth_Some: "0 \<le> w \<Longrightarrow> w \<le> 6 \<Longrightarrow> createMonth d w fw i \<noteq> None"
  using createMonth_result [of w d fw i] by auto

lemma createMonths_Some:
  assumes "0 \<le> w" "w \<le> 6"
  shows "createMonths d loc fw w n = Some (map (\<lambda>i. the (createMonth d w fw i)) [0..n - 1])"
  unfolding createMonths_def using assms by (intro those_map_Some createMonth_Some)

lemma createMonths_empty: "n < 1 \<Longrightarrow> createMonths d loc fw w n = Some []"
  by (simp add: createMonths_def)

lemma month_createMonth:
  assumes "0 \<le> w" "w \<le> 6"
  shows "MonthGrid.month (the (createMonth d w fw i)) = startOfMonth (addMonths d i)"
proof -
  from createMonth_result [OF assms, of d fw i] obtain first n where
    "createMonth d w fw i =
       Some \<lparr>MonthGrid.month = startOfMonth (addMonths d i), dates = daysFrom first n\<rparr>"
    by blast
  then show ?thesis by simp
qed

lemma createMonths_hd:
  assumes "0 \<le> w" "w \<le> 6" "1 \<le> n"
  shows "\<exists>g gs. createMonths d loc fw w n = Some (g # gs) \<and>
           MonthGrid.month g = startOfMonth (addMonths d 0)"
proof -
  have "[0..n - 1] = 0 # [1..n - 1]" using assms(3) by (simp add: upto_rec1)
  then have "createMonths d loc fw w n =
      Some (the (createMonth d w fw 0) # map (\<lambda>i. the (createMonth d w fw i)) [1..n - 1])"
    using createMonths_Some [OF assms(1,2), of d loc fw n] by simp
  then show ?thesis using month_createMonth [OF assms(1,2), of d fw 0] by blast
qed

lemma dayNumber_daysFrom:
  "validDate a \<Longrightarrow> i < n \<Longrightarrow> validDate (daysFrom a n ! i) \<and>
     dayNumber (daysFrom a n ! i) = dayNumber a + int i"
  using funpow_nextDay [of a i] by (simp add: daysFrom_nth)

lemma distinct_daysFrom:
  assumes "validDate a"
  shows "distinct (daysFrom a n)"
  unfolding distinct_conv_nth length_daysFrom
proof (intro allI impI)
  fix i j
  assume "i < n" "j < n" "i \<noteq> j"
  then have "dayNumber (daysFrom a n ! i) \<noteq> dayNumber (daysFrom a n ! j)"
    using dayNumber_daysFrom [OF assms, of i n] dayNumber_daysFrom [OF assms, of j n] by simp
  then show "daysFrom a n ! i \<noteq> daysFrom a n ! j" by auto
qed

lemma compare_daysFrom:
  assumes "validDate a" "Suc i < n"
  shows "compareDates (daysFrom a n ! Suc i) (daysFrom a n ! i) = 1"
  using dayNumber_daysFrom [OF assms(1), of i n] dayNumber_daysFrom [OF assms(1), of "Suc i" n]
    assms(2)
  by (simp add: compareDates_def)

lemma grid_createMonth:
  assumes "0 \<le> w" "w \<le> 6"
  shows "length (dates (the (createMonth d w fw i))) mod 7 = 0 \<and>
    (\<forall>j. Suc j < length (dates (the (createMonth d w fw i))) \<longrightarrow>
       dates (the (createMonth d w fw i)) ! Suc j = nextDay (dates (the (createMonth d w fw i)) ! j) \<and>
       compareDates (dates (the (createMonth d w fw i)) ! Suc j)
         (dates (the (createMonth d w fw i)) ! j) = 1) \<and>
    distinct (dates (the (createMonth d w fw i))) \<and>
    (fw \<longrightarrow> length (dates (the (createMonth d w fw i))) = 42)"
proof -
  from createMonth_result [OF assms, of d fw i] obtain first n where
    r: "createMonth d w fw i =
       Some \<lparr>MonthGrid.month = startOfMonth (addMonths d i), dates = daysFrom first n\<rparr>"
    "validDate first" "n mod 7 = 0" "fw \<longrightarrow> n = 42"
    by (elim exE conjE) (rule that)
  have e: "dates (the (createMonth d w fw i)) = daysFrom first n" unfolding r(1) by simp
  show ?thesis unfolding e length_daysFrom
    using r(3,4) distinct_daysFrom [OF r(2), of n] compare_daysFrom [OF r(2)]
    by (simp add: daysFrom_step)
qed


section \<open>The month grids\<close>

text \<open>
  C5. For a week start between 0 and 6 the builder returns, for every reference date, one
  grid for each month asked for. In every grid the number of dates is a multiple of 7, each
  date is the calendar day after the date before it (so the dates rise by exactly one day
  per step, with no gap), no date occurs twice, and with \<open>fixedWeeks\<close> the grid has
  exactly 42 dates.
\<close>

theorem createMonths_grid:
  assumes "0 \<le> w" "w \<le> 6"
  shows "\<exists>grids. createMonths dateObj loc fw w n = Some grids \<and> length grids = nat n \<and>
    (\<forall>g \<in> set grids.
       length (dates g) mod 7 = 0 \<and>
       (\<forall>j. Suc j < length (dates g) \<longrightarrow>
          dates g ! Suc j = nextDay (dates g ! j) \<and>
          compareDates (dates g ! Suc j) (dates g ! j) = 1) \<and>
       distinct (dates g) \<and>
       (fw \<longrightarrow> length (dates g) = 42))"
proof -
  let ?grids = "map (\<lambda>i. the (createMonth dateObj w fw i)) [0..n - 1]"
  have a: "createMonths dateObj loc fw w n = Some ?grids"
    using assms by (rule createMonths_Some)
  have l: "length ?grids = nat n" by simp
  have b: "\<forall>g \<in> set ?grids.
       length (dates g) mod 7 = 0 \<and>
       (\<forall>j. Suc j < length (dates g) \<longrightarrow>
          dates g ! Suc j = nextDay (dates g ! j) \<and>
          compareDates (dates g ! Suc j) (dates g ! j) = 1) \<and>
       distinct (dates g) \<and>
       (fw \<longrightarrow> length (dates g) = 42)"
  proof (rule ballI)
    fix g
    assume "g \<in> set ?grids"
    then obtain i where g: "g = the (createMonth dateObj w fw i)" by auto
    show "length (dates g) mod 7 = 0 \<and>
       (\<forall>j. Suc j < length (dates g) \<longrightarrow>
          dates g ! Suc j = nextDay (dates g ! j) \<and>
          compareDates (dates g ! Suc j) (dates g ! j) = 1) \<and>
       distinct (dates g) \<and>
       (fw \<longrightarrow> length (dates g) = 42)"
      unfolding g using assms by (rule grid_createMonth)
  qed
  from a l b show ?thesis by (rule_tac x = "?grids" in exI) (intro conjI)
qed

theorem createMonths_grid_witness:
  "\<exists>grids. createMonths \<lparr>year = 2023, DateValue.month = 2, day = 10\<rparr> ''en'' True 0 2 = Some grids \<and>
     length grids = 2 \<and>
     (\<forall>g \<in> set grids.
       length (dates g) mod 7 = 0 \<and>
       (\<forall>j. Suc j < length (dates g) \<longrightarrow>
          dates g ! Suc j = nextDay (dates g ! j) \<and>
          compareDates (dates g ! Suc j) (dates g ! j) = 1) \<and>
       distinct (dates g) \<and>
       length (dates g) = 42)"
  using createMonths_grid [of 0 "\<lparr>year = 2023, DateValue.month = 2, day = 10\<rparr>" "''en''" True 2]
  by simp

section \<open>Turning pages\<close>

lemma addMonths_addMonths_zero:
  "startOfMonth (addMonths (addMonths d s) 0) = startOfMonth (addMonths d s)"
proof -
  define idx where "idx = year d * 12 + (DateValue.month d - 1) + s"
  have "idx div 12 * 12 + idx mod 12 = idx" by simp
  then show ?thesis
    unfolding startOfMonth_def addMonths_def Let_def idx_def [symmetric] by simp
qed

lemma startOfMonth_addMonths_first:
  "day d = 1 \<Longrightarrow> startOfMonth (addMonths d s) = addMonths d s"
  using getDaysInMonth_bounds
    [of "(year d * 12 + (DateValue.month d - 1) + s) div 12"
        "(year d * 12 + (DateValue.month d - 1) + s) mod 12 + 1"]
  by (simp add: startOfMonth_def addMonths_def Let_def min_def)

lemma createMonths_months:
  assumes "0 \<le> w" "w \<le> 6"
  shows "\<exists>gs. createMonths d loc fw w n = Some gs \<and>
    map MonthGrid.month gs = map (\<lambda>i. startOfMonth (addMonths d i)) [0..n - 1]"
proof -
  have "map MonthGrid.month (map (\<lambda>i. the (createMonth d w fw i)) [0..n - 1]) =
    map (\<lambda>i. startOfMonth (addMonths d i)) [0..n - 1]"
    by (simp add: month_createMonth [OF assms])
  with createMonths_Some [OF assms, of d loc fw n] show ?thesis by blast
qed

lemma useCalendar_result:
  assumes "0 \<le> weekStartsOn props" "weekStartsOn props \<le> 6"
  shows "\<exists>ms. useCalendar props = Some (Inr
      \<lparr>Calendar.dateCursor = UseCalendarProps.dateCursor props,
       Calendar.minValue = map_option (setFields (UseCalendarProps.dateCursor props))
         (UseCalendarProps.minValue props),
       Calendar.maxValue = map_option (setFields (UseCalendarProps.dateCursor props))
         (UseCalendarProps.maxValue props),
       months = ms\<rparr>) \<and>
     map MonthGrid.month ms =
       map (\<lambda>i. startOfMonth (addMonths (UseCalendarProps.dateCursor props) i))
         [0..numberOfMonths props - 1]"
proof -
  from createMonths_months [OF assms, of "UseCalendarProps.dateCursor props" "localeId props"
      "fixedWeeks props" "numberOfMonths props"]
  obtain ms where ms: "createMonths (UseCalendarProps.dateCursor props) (localeId props)
      (fixedWeeks props) (weekStartsOn props) (numberOfMonths props) = Some ms"
    "map MonthGrid.month ms =
       map (\<lambda>i. startOfMonth (addMonths (UseCalendarProps.dateCursor props) i))
         [0..numberOfMonths props - 1]" by blast
  have "useCalendar props = Some (Inr
      \<lparr>Calendar.dateCursor = UseCalendarProps.dateCursor props,
       Calendar.minValue = map_option (setFields (UseCalendarProps.dateCursor props))
         (UseCalendarProps.minValue props),
       Calendar.maxValue = map_option (setFields (UseCalendarProps.dateCursor props))
         (UseCalendarProps.maxValue props),
       months = ms\<rparr>)"
    unfolding useCalendar_def Let_def ms(1) by simp
  with ms(2) show ?thesis by blast
qed

lemma page_grids:
  assumes "0 \<le> weekStartsOn props" "weekStartsOn props \<le> 6" "1 \<le> numberOfMonths props"
  shows "\<exists>n ns. createMonths d (localeId props) (fixedWeeks props) (weekStartsOn props)
      (numberOfMonths props) = Some (n # ns) \<and>
      MonthGrid.month n = startOfMonth (addMonths d 0)"
  using assms by (rule createMonths_hd)

lemma nextPage_result:
  assumes "months cal = g # gs"
    and "createMonths
      (addMonths (MonthGrid.month g) (if pagedNavigation props then numberOfMonths props else 1))
      (localeId props) (fixedWeeks props) (weekStartsOn props) (numberOfMonths props) =
      Some (n # ns)"
  shows "nextPage props cal =
    Some (Inr (props\<lparr>UseCalendarProps.dateCursor := startOfMonth (MonthGrid.month n)\<rparr>,
               cal\<lparr>months := n # ns\<rparr>))"
  using assms by (cases "pagedNavigation props") (simp_all add: nextPage_def)

lemma prevPage_result:
  assumes "months cal = g # gs"
    and "createMonths
      (subtractMonths (MonthGrid.month g)
         (if pagedNavigation props then numberOfMonths props else 1))
      (localeId props) (fixedWeeks props) (weekStartsOn props) (numberOfMonths props) =
      Some (n # ns)"
  shows "prevPage props cal =
    Some (Inr (props\<lparr>UseCalendarProps.dateCursor := startOfMonth (MonthGrid.month n)\<rparr>, cal))"
  using assms by (cases "pagedNavigation props") (simp_all add: prevPage_def)

lemma hd_month_page:
  assumes "0 \<le> weekStartsOn props" "weekStartsOn props \<le> 6" "1 \<le> numberOfMonths props"
  shows "\<exists>n ns. createMonths (addMonths f s) (localeId props) (fixedWeeks props)
      (weekStartsOn props) (numberOfMonths props) = Some (n # ns) \<and>
      MonthGrid.month n = startOfMonth (addMonths f s)"
  using page_grids [OF assms, of "addMonths f s"] by (simp only: addMonths_addMonths_zero)

lemma prevPage_keeps_months:
  assumes "months cal \<noteq> []"
    and "0 \<le> weekStartsOn props" "weekStartsOn props \<le> 6" "1 \<le> numberOfMonths props"
  shows "prevPage props cal =
    Some (Inr (props\<lparr>UseCalendarProps.dateCursor :=
        startOfMonth (subtractMonths (MonthGrid.month (hd (months cal)))
          (if pagedNavigation props then numberOfMonths props else 1))\<rparr>, cal))"
proof -
  from assms(1) obtain g gs where g: "months cal = g # gs" by (cases "months cal") simp_all
  from hd_month_page [OF assms(2-4), of "MonthGrid.month g"
      "- (if pagedNavigation props then numberOfMonths props else 1)"]
  obtain p ps where
    p: "createMonths (subtractMonths (MonthGrid.month g)
        (if pagedNavigation props then numberOfMonths props else 1))
      (localeId props) (fixedWeeks props) (weekStartsOn props) (numberOfMonths props) =
      Some (p # ps)"
      "MonthGrid.month p = startOfMonth (subtractMonths (MonthGrid.month g)
        (if pagedNavigation props then numberOfMonths props else 1))"
    unfolding subtractMonths_def by blast
  have "prevPage props cal =
      Some (Inr (props\<lparr>UseCalendarProps.dateCursor := startOfMonth (MonthGrid.month p)\<rparr>, cal))"
    using g p(1) by (rule prevPage_result)
  then show ?thesis unfolding p(2) startOfMonth_idem g by simp
qed

lemma nextPage_stores_months:
  assumes "months cal \<noteq> []"
    and "0 \<le> weekStartsOn props" "weekStartsOn props \<le> 6" "1 \<le> numberOfMonths props"
    and "target = addMonths (MonthGrid.month (hd (months cal)))
          (if pagedNavigation props then numberOfMonths props else 1)"
  shows "\<exists>ms. nextPage props cal =
      Some (Inr (props\<lparr>UseCalendarProps.dateCursor := startOfMonth target\<rparr>,
                 cal\<lparr>months := ms\<rparr>)) \<and>
    ms \<noteq> [] \<and>
    map MonthGrid.month ms =
      map (\<lambda>i. startOfMonth (addMonths target i)) [0..numberOfMonths props - 1]"
proof -
  from assms(1) obtain g gs where g: "months cal = g # gs" by (cases "months cal") simp_all
  from createMonths_months [OF assms(2,3), of target "localeId props" "fixedWeeks props"
      "numberOfMonths props"]
  obtain ms where ms: "createMonths target (localeId props) (fixedWeeks props)
      (weekStartsOn props) (numberOfMonths props) = Some ms"
    "map MonthGrid.month ms =
      map (\<lambda>i. startOfMonth (addMonths target i)) [0..numberOfMonths props - 1]" by blast
  have u: "[0..numberOfMonths props - 1] = 0 # [1..numberOfMonths props - 1]"
    using assms(4) by (simp add: upto_rec1)
  from ms(2) obtain n ns where n: "ms = n # ns" unfolding u by (cases ms) simp_all
  have mn: "MonthGrid.month n = startOfMonth target"
    using ms(2) unfolding u n assms(5) by (simp add: addMonths_addMonths_zero)
  have tg: "target = addMonths (MonthGrid.month g)
      (if pagedNavigation props then numberOfMonths props else 1)"
    unfolding assms(5) g by simp
  have "nextPage props cal =
      Some (Inr (props\<lparr>UseCalendarProps.dateCursor := startOfMonth (MonthGrid.month n)\<rparr>,
                 cal\<lparr>months := n # ns\<rparr>))"
    using g ms(1) [unfolded n tg] by (rule nextPage_result)
  then show ?thesis using ms(2) unfolding mn startOfMonth_idem n by blast
qed

lemma watchDateCursor_same_month:
  "isSameMonth v oldValue \<Longrightarrow> watchDateCursor props cal v oldValue = Some cal"
  by (simp add: watchDateCursor_def isSameMonth_def setFields_def startOfMonth_def)

subsection \<open>The example calendar\<close>

lemma example_months:
  "createMonths \<lparr>year = 2024, DateValue.month = 1, day = 15\<rparr> ''en'' False 0 1 =
     Some (months exampleCalendar)"
  by code_simp

lemma example_months_feb:
  "createMonths \<lparr>year = 2024, DateValue.month = 2, day = 1\<rparr> ''en'' False 0 1 =
     Some (months exampleCalendarFeb)"
  by code_simp

lemma useCalendar_example: "useCalendar exampleProps = Some (Inr exampleCalendar)"
proof -
  have "useCalendar exampleProps =
    Some (Inr \<lparr>Calendar.dateCursor = \<lparr>year = 2024, DateValue.month = 1, day = 15\<rparr>,
      Calendar.minValue = None, Calendar.maxValue = None, months = months exampleCalendar\<rparr>)"
    by (simp add: useCalendar_def exampleProps_def example_months)
  also have "\<lparr>Calendar.dateCursor = \<lparr>year = 2024, DateValue.month = 1, day = 15\<rparr>,
      Calendar.minValue = None, Calendar.maxValue = None, months = months exampleCalendar\<rparr> =
      exampleCalendar"
    by (simp add: exampleCalendar_def)
  finally show ?thesis .
qed

lemma example_config:
  "0 \<le> weekStartsOn exampleProps" "weekStartsOn exampleProps \<le> 6"
  "1 \<le> numberOfMonths exampleProps" "\<not> pagedNavigation exampleProps"
  by (simp_all add: exampleProps_def)

lemma example_first:
  "months exampleCalendar \<noteq> []"
  "MonthGrid.month (hd (months exampleCalendar)) = \<lparr>year = 2024, DateValue.month = 1, day = 1\<rparr>"
  by (simp_all add: exampleCalendar_def)

lemma example_first_feb:
  "months exampleCalendarFeb \<noteq> []"
  "MonthGrid.month (hd (months exampleCalendarFeb)) =
     \<lparr>year = 2024, DateValue.month = 2, day = 1\<rparr>"
  by (simp_all add: exampleCalendarFeb_def)

lemma example_last:
  "MonthGrid.month (last (months exampleCalendar)) = \<lparr>year = 2024, DateValue.month = 1, day = 1\<rparr>"
  by (simp add: exampleCalendar_def)

lemma jan_minus_one:
  "startOfMonth (subtractMonths \<lparr>year = 2024, DateValue.month = 1, day = 1\<rparr> 1) =
      \<lparr>year = 2023, DateValue.month = 12, day = 1\<rparr>"
  by (simp add: startOfMonth_def subtractMonths_def addMonths_def)

lemma feb_minus_one:
  "startOfMonth (subtractMonths \<lparr>year = 2024, DateValue.month = 2, day = 1\<rparr> 1) =
      \<lparr>year = 2024, DateValue.month = 1, day = 1\<rparr>"
  by (simp add: startOfMonth_def subtractMonths_def addMonths_def)

lemma jan_plus_one:
  "addMonths \<lparr>year = 2024, DateValue.month = 1, day = 1\<rparr> 1 =
      \<lparr>year = 2024, DateValue.month = 2, day = 1\<rparr>"
  by (simp add: addMonths_def getDaysInMonth_def)

lemma feb_start: "startOfMonth \<lparr>year = 2024, DateValue.month = 2, day = 1\<rparr> =
    \<lparr>year = 2024, DateValue.month = 2, day = 1\<rparr>"
  by (simp add: startOfMonth_def)

lemma dec_end:
  "endOfMonth (subtractMonths \<lparr>year = 2024, DateValue.month = 1, day = 1\<rparr> 1) =
     \<lparr>year = 2023, DateValue.month = 12, day = 31\<rparr>"
  by (simp add: endOfMonth_def subtractMonths_def addMonths_def getDaysInMonth_def)

lemma feb1_jan31:
  "isAfter \<lparr>year = 2024, DateValue.month = 2, day = 1\<rparr>
     \<lparr>year = 2024, DateValue.month = 1, day = 31\<rparr>"
  "\<not> isAfter \<lparr>year = 2024, DateValue.month = 2, day = 1\<rparr>
     \<lparr>year = 2024, DateValue.month = 2, day = 1\<rparr>"
  by code_simp+

lemma dec31_jan1:
  "isBefore \<lparr>year = 2023, DateValue.month = 12, day = 31\<rparr>
     \<lparr>year = 2024, DateValue.month = 1, day = 1\<rparr>"
  "\<not> isBefore \<lparr>year = 2023, DateValue.month = 12, day = 31\<rparr>
     \<lparr>year = 2023, DateValue.month = 12, day = 31\<rparr>"
  by code_simp+

lemma nextPage_example:
  "nextPage exampleProps exampleCalendar =
     Some (Inr (exampleProps\<lparr>UseCalendarProps.dateCursor :=
                  \<lparr>year = 2024, DateValue.month = 2, day = 1\<rparr>\<rparr>, exampleCalendarFeb))"
proof -
  have m: "months exampleCalendar = hd (months exampleCalendar) # []"
    by (simp add: exampleCalendar_def)
  have f: "months exampleCalendarFeb = hd (months exampleCalendarFeb) # []"
    by (simp add: exampleCalendarFeb_def)
  have c: "createMonths (addMonths (MonthGrid.month (hd (months exampleCalendar)))
        (if pagedNavigation exampleProps then numberOfMonths exampleProps else 1))
      (localeId exampleProps) (fixedWeeks exampleProps) (weekStartsOn exampleProps)
      (numberOfMonths exampleProps) = Some (hd (months exampleCalendarFeb) # [])"
    unfolding example_first(2) f [symmetric]
    by (simp add: exampleProps_def jan_plus_one example_months_feb)
  have "nextPage exampleProps exampleCalendar =
     Some (Inr (exampleProps\<lparr>UseCalendarProps.dateCursor :=
                  startOfMonth (MonthGrid.month (hd (months exampleCalendarFeb)))\<rparr>,
                exampleCalendar\<lparr>months := hd (months exampleCalendarFeb) # []\<rparr>))"
    using m c by (rule nextPage_result)
  then show ?thesis
    unfolding f [symmetric] example_first_feb(2)
    by (simp add: startOfMonth_def exampleCalendarFeb_def)
qed

lemma prevPage_example:
  "prevPage exampleProps exampleCalendar =
     Some (Inr (exampleProps\<lparr>UseCalendarProps.dateCursor :=
                  \<lparr>year = 2023, DateValue.month = 12, day = 1\<rparr>\<rparr>, exampleCalendar))"
  using prevPage_keeps_months [OF example_first(1) example_config(1-3)]
  unfolding example_first(2) by (simp only: example_config(4) if_False jan_minus_one)

lemma watch_example:
  "watchDateCursor exampleProps exampleCalendar
     \<lparr>year = 2024, DateValue.month = 1, day = 20\<rparr>
     \<lparr>year = 2024, DateValue.month = 1, day = 15\<rparr> = Some exampleCalendar"
  by (rule watchDateCursor_same_month) (simp add: isSameMonth_def startOfMonth_def)

subsection \<open>Page turns and the cursor watcher\<close>

lemma setFields_value: "setFields base v = v"
  by (simp add: setFields_def)

lemma isSameMonth_fields:
  "isSameMonth a b = (year a = year b \<and> DateValue.month a = DateValue.month b)"
  by (simp add: isSameMonth_def startOfMonth_def)

lemma month_index:
  fixes y m :: int
  assumes "1 \<le> m" "m \<le> 12"
  shows "(y * 12 + (m - 1)) div 12 = y" "(y * 12 + (m - 1)) mod 12 + 1 = m"
proof -
  have e: "y * 12 + (m - 1) = 12 * y + (m - 1)" by simp
  have b: "0 \<le> m - 1" "m - 1 < 12" using assms by simp_all
  show "(y * 12 + (m - 1)) div 12 = y" using e b by (rule int_div_pos_eq)
  have "(y * 12 + (m - 1)) mod 12 = m - 1" using e b by (rule int_mod_pos_eq)
  then show "(y * 12 + (m - 1)) mod 12 + 1 = m" by simp
qed

lemma addMonths_same_month:
  assumes "1 \<le> DateValue.month f" "DateValue.month f \<le> 12" "isSameMonth (addMonths f s) f"
  shows "s = 0"
proof -
  define idx where "idx = year f * 12 + (DateValue.month f - 1) + s"
  have y: "idx div 12 = year f" and m: "idx mod 12 + 1 = DateValue.month f"
    using assms(3) unfolding isSameMonth_fields addMonths_def Let_def idx_def by simp_all
  have "idx = 12 * (idx div 12) + idx mod 12" by simp
  also have "\<dots> = 12 * year f + (DateValue.month f - 1)" unfolding y using m by simp
  finally show ?thesis unfolding idx_def by simp
qed

lemma addMonths_back:
  assumes "1 \<le> DateValue.month f" "DateValue.month f \<le> 12" "day f = 1"
  shows "addMonths (addMonths f s) (- s) = f"
proof -
  define idx where "idx = year f * 12 + (DateValue.month f - 1) + s"
  have i: "idx div 12 * 12 + (idx mod 12 + 1 - 1) + - s = year f * 12 + (DateValue.month f - 1)"
    unfolding idx_def by simp
  have d1: "min 1 (getDaysInMonth y m) = 1" for y m
    using getDaysInMonth_bounds [of y m] by simp
  have "addMonths (addMonths f s) (- s) =
    \<lparr>year = (year f * 12 + (DateValue.month f - 1)) div 12,
     DateValue.month = (year f * 12 + (DateValue.month f - 1)) mod 12 + 1, day = 1\<rparr>"
    unfolding addMonths_def Let_def idx_def [symmetric] assms(3)
    by (simp only: DateValue.simps i d1)
  also have "\<dots> = f" unfolding month_index [OF assms(1,2)] using assms(3) by simp
  finally show ?thesis .
qed

lemma createMonth_same_month:
  assumes "year d = year d'" "DateValue.month d = DateValue.month d'"
  shows "createMonth d w fw i = createMonth d' w fw i"
proof -
  have "startOfMonth (addMonths d i) = startOfMonth (addMonths d' i)"
    unfolding startOfMonth_def addMonths_def Let_def assms by simp
  then show ?thesis unfolding createMonth_def by (simp only:)
qed

lemma createMonths_same_month:
  assumes "year d = year d'" "DateValue.month d = DateValue.month d'"
  shows "createMonths d loc fw w n = createMonths d' loc fw w n"
  unfolding createMonths_def using createMonth_same_month [OF assms] by presburger

lemma watchDateCursor_other_month:
  assumes "\<not> isSameMonth v oldValue"
    and "0 \<le> weekStartsOn props" "weekStartsOn props \<le> 6" "1 \<le> numberOfMonths props"
  shows "\<exists>ms. watchDateCursor props cal v oldValue = Some (cal\<lparr>months := ms\<rparr>) \<and> ms \<noteq> [] \<and>
    MonthGrid.month (hd ms) = startOfMonth (addMonths v 0)"
proof -
  from page_grids [OF assms(2-4), of v] obtain n ns where
    n: "createMonths v (localeId props) (fixedWeeks props) (weekStartsOn props)
      (numberOfMonths props) = Some (n # ns)"
      "MonthGrid.month n = startOfMonth (addMonths v 0)" by blast
  have "watchDateCursor props cal v oldValue = Some (cal\<lparr>months := n # ns\<rparr>)"
    using assms(1) n(1) by (simp add: watchDateCursor_def setFields_value)
  then show ?thesis using n(2) by (intro exI [of _ "n # ns"]) simp
qed

lemma month_addMonths: "1 \<le> DateValue.month (addMonths f s) \<and> DateValue.month (addMonths f s) \<le> 12"
proof -
  have "0 \<le> (year f * 12 + (DateValue.month f - 1) + s) mod 12"
    "(year f * 12 + (DateValue.month f - 1) + s) mod 12 < 12"
    by (rule pos_mod_sign, simp) (rule pos_mod_bound, simp)
  then show ?thesis by (simp add: addMonths_def Let_def)
qed

lemma day_addMonths: "day f = 1 \<Longrightarrow> day (addMonths f s) = 1"
  using startOfMonth_addMonths_first [of f s] day_startOfMonth [of "addMonths f s"] by simp

lemma startOfMonth_first: "day f = 1 \<Longrightarrow> startOfMonth f = f"
  by (simp add: startOfMonth_def)

text \<open>
  \<open>nextPage\<close> alone: the first month of the window it stores is the first visible month
  moved forward by the step.
\<close>

lemma nextPage_first_month:
  assumes "months cal \<noteq> []"
    and "0 \<le> weekStartsOn props" "weekStartsOn props \<le> 6" "1 \<le> numberOfMonths props"
    and "day (MonthGrid.month (hd (months cal))) = 1"
  shows "\<exists>props' cal'. nextPage props cal = Some (Inr (props', cal')) \<and> months cal' \<noteq> [] \<and>
    MonthGrid.month (hd (months cal')) =
      addMonths (MonthGrid.month (hd (months cal)))
        (if pagedNavigation props then numberOfMonths props else 1) \<and>
    UseCalendarProps.dateCursor props' = MonthGrid.month (hd (months cal'))"
proof -
  define target where "target = addMonths (MonthGrid.month (hd (months cal)))
        (if pagedNavigation props then numberOfMonths props else 1)"
  from nextPage_stores_months [OF assms(1-4) target_def] obtain ms where
    ms: "nextPage props cal =
      Some (Inr (props\<lparr>UseCalendarProps.dateCursor := startOfMonth target\<rparr>,
                 cal\<lparr>months := ms\<rparr>))"
      "ms \<noteq> []"
      "map MonthGrid.month ms =
         map (\<lambda>i. startOfMonth (addMonths target i)) [0..numberOfMonths props - 1]"
    by blast
  have u: "[0..numberOfMonths props - 1] = 0 # [1..numberOfMonths props - 1]"
    using assms(4) by (simp add: upto_rec1)
  have st: "startOfMonth target = target"
    unfolding target_def using assms(5) by (rule startOfMonth_addMonths_first)
  have "MonthGrid.month (hd ms) = startOfMonth (addMonths target 0)"
    using ms(2,3) unfolding u by (cases ms) simp_all
  also have "\<dots> = target"
    unfolding target_def addMonths_addMonths_zero using st unfolding target_def .
  finally have h: "MonthGrid.month (hd ms) = target" .
  show ?thesis
    using ms(1,2) h st unfolding target_def [symmetric]
    by (intro exI [of _ "props\<lparr>UseCalendarProps.dateCursor := startOfMonth target\<rparr>"]
        exI [of _ "cal\<lparr>months := ms\<rparr>"]) simp
qed

text \<open>
  \<open>prevPage\<close> and then the watcher, when the watcher last saw a cursor in the first visible
  month: the cursor has left that month, the watcher rebuilds the window, and its first
  month is the first visible month moved back by the step.
\<close>

lemma prevPage_then_watch:
  assumes "months cal \<noteq> []"
    and "0 \<le> weekStartsOn props" "weekStartsOn props \<le> 6" "1 \<le> numberOfMonths props"
    and "f = MonthGrid.month (hd (months cal))"
    and "1 \<le> DateValue.month f" "DateValue.month f \<le> 12" "day f = 1"
    and "isSameMonth oldValue f"
    and "step = (if pagedNavigation props then numberOfMonths props else 1)"
  shows "\<exists>props' ms. prevPage props cal = Some (Inr (props', cal)) \<and>
    UseCalendarProps.dateCursor props' = subtractMonths f step \<and>
    watchDateCursor props' cal (UseCalendarProps.dateCursor props') oldValue =
      Some (cal\<lparr>months := ms\<rparr>) \<and>
    ms \<noteq> [] \<and> MonthGrid.month (hd ms) = subtractMonths f step"
proof -
  define t where "t = subtractMonths f step"
  have st: "startOfMonth t = t"
    unfolding t_def subtractMonths_def using assms(8) by (rule startOfMonth_addMonths_first)
  define props' where "props' = props\<lparr>UseCalendarProps.dateCursor := t\<rparr>"
  have pp: "prevPage props cal = Some (Inr (props', cal))"
    using prevPage_keeps_months [OF assms(1-4)]
    unfolding assms(5) [symmetric] assms(10) [symmetric] t_def [symmetric] st props'_def .
  have cur: "UseCalendarProps.dateCursor props' = t" by (simp add: props'_def)
  have s1: "1 \<le> step" unfolding assms(10) using assms(4) by simp
  have ns: "\<not> isSameMonth t oldValue"
  proof
    assume "isSameMonth t oldValue"
    with assms(9) have "isSameMonth (addMonths f (- step)) f"
      unfolding t_def subtractMonths_def isSameMonth_fields by simp
    with assms(6,7) have "- step = 0" by (rule addMonths_same_month)
    with s1 show False by simp
  qed
  have c: "0 \<le> weekStartsOn props'" "weekStartsOn props' \<le> 6" "1 \<le> numberOfMonths props'"
    using assms(2-4) by (simp_all add: props'_def)
  from watchDateCursor_other_month [OF ns c, of cal] obtain ms where
    ms: "watchDateCursor props' cal t oldValue = Some (cal\<lparr>months := ms\<rparr>)" "ms \<noteq> []"
      "MonthGrid.month (hd ms) = startOfMonth (addMonths t 0)" by blast
  have "startOfMonth (addMonths t 0) = t"
    unfolding t_def subtractMonths_def addMonths_addMonths_zero
    using st unfolding t_def subtractMonths_def .
  with ms(3) have h: "MonthGrid.month (hd ms) = t" by simp
  show ?thesis
    using pp ms(1,2) h unfolding cur t_def [symmetric]
    by (intro exI [of _ props'] exI [of _ ms]) (simp add: cur)
qed

text \<open>
  The round trip when the watcher runs after each call: \<open>nextPage\<close>, the watcher,
  \<open>prevPage\<close>, the watcher. The window is back at the month it started from.
\<close>

lemma nextPage_prevPage_with_watcher:
  assumes "months cal \<noteq> []"
    and "0 \<le> weekStartsOn props" "weekStartsOn props \<le> 6" "1 \<le> numberOfMonths props"
    and "\<not> pagedNavigation props"
    and "f = MonthGrid.month (hd (months cal))"
    and "1 \<le> DateValue.month f" "DateValue.month f \<le> 12" "day f = 1"
    and "isSameMonth (UseCalendarProps.dateCursor props) f"
  shows "\<exists>p1 c1 c1' p2 c2.
    nextPage props cal = Some (Inr (p1, c1)) \<and>
    watchDateCursor p1 c1 (UseCalendarProps.dateCursor p1) (UseCalendarProps.dateCursor props) =
      Some c1' \<and>
    prevPage p1 c1' = Some (Inr (p2, c1')) \<and>
    watchDateCursor p2 c1' (UseCalendarProps.dateCursor p2) (UseCalendarProps.dateCursor p1) =
      Some c2 \<and>
    months c2 \<noteq> [] \<and> MonthGrid.month (hd (months c2)) = f \<and>
    UseCalendarProps.dateCursor p2 = f"
proof -
  define g where "g = addMonths f 1"
  have gm: "1 \<le> DateValue.month g" "DateValue.month g \<le> 12"
    unfolding g_def using month_addMonths [of f 1] by simp_all
  have gd: "day g = 1" unfolding g_def using assms(9) by (rule day_addMonths)
  have sg: "startOfMonth g = g" using gd by (rule startOfMonth_first)
  have d1: "day (MonthGrid.month (hd (months cal))) = 1" using assms(9) unfolding assms(6) .
  from nextPage_first_month [OF assms(1-4) d1] obtain p1 c1 where
    n: "nextPage props cal = Some (Inr (p1, c1))" "months c1 \<noteq> []"
      "MonthGrid.month (hd (months c1)) = g" "UseCalendarProps.dateCursor p1 = g"
    unfolding g_def assms(6) using assms(5) by auto
  have p1: "p1 = props\<lparr>UseCalendarProps.dateCursor := g\<rparr>"
  proof -
    from nextPage_stores_months [OF assms(1-4) refl] obtain ms where
      "nextPage props cal = Some (Inr (props\<lparr>UseCalendarProps.dateCursor :=
          startOfMonth (addMonths (MonthGrid.month (hd (months cal)))
            (if pagedNavigation props then numberOfMonths props else 1))\<rparr>,
        cal\<lparr>months := ms\<rparr>))" by blast
    with n(1) have "p1 = props\<lparr>UseCalendarProps.dateCursor :=
          startOfMonth (addMonths (MonthGrid.month (hd (months cal)))
            (if pagedNavigation props then numberOfMonths props else 1))\<rparr>" by simp
    then show ?thesis using assms(5) sg unfolding assms(6) [symmetric] g_def by simp
  qed
  have c1cfg: "0 \<le> weekStartsOn p1" "weekStartsOn p1 \<le> 6" "1 \<le> numberOfMonths p1"
    "\<not> pagedNavigation p1"
    using assms(2-5) by (simp_all add: p1)
  have ns: "\<not> isSameMonth g (UseCalendarProps.dateCursor props)"
  proof
    assume "isSameMonth g (UseCalendarProps.dateCursor props)"
    with assms(10) have "isSameMonth (addMonths f 1) f"
      unfolding g_def isSameMonth_fields by simp
    with assms(7,8) have "(1::int) = 0" by (rule addMonths_same_month)
    then show False by simp
  qed
  from watchDateCursor_other_month [OF ns c1cfg(1-3), of c1] obtain ms1 where
    w1: "watchDateCursor p1 c1 g (UseCalendarProps.dateCursor props) =
        Some (c1\<lparr>months := ms1\<rparr>)" "ms1 \<noteq> []"
      "MonthGrid.month (hd ms1) = startOfMonth (addMonths g 0)" by blast
  define c1' where "c1' = c1\<lparr>months := ms1\<rparr>"
  have "startOfMonth (addMonths g 0) = g"
    unfolding g_def addMonths_addMonths_zero using sg unfolding g_def .
  with w1(3) have h1: "MonthGrid.month (hd (months c1')) = g" by (simp add: c1'_def)
  have ne1: "months c1' \<noteq> []" using w1(2) by (simp add: c1'_def)
  have gg: "isSameMonth g g" by (simp add: isSameMonth_fields)
  have step1: "(1::int) = (if pagedNavigation p1 then numberOfMonths p1 else 1)"
    using c1cfg(4) by simp
  from prevPage_then_watch [OF ne1 c1cfg(1-3) h1 [symmetric] gm gd gg step1]
  obtain p2 ms2 where
    b: "prevPage p1 c1' = Some (Inr (p2, c1'))"
      "UseCalendarProps.dateCursor p2 = subtractMonths g 1"
      "watchDateCursor p2 c1' (UseCalendarProps.dateCursor p2) g = Some (c1'\<lparr>months := ms2\<rparr>)"
      "ms2 \<noteq> []" "MonthGrid.month (hd ms2) = subtractMonths g 1" by blast
  have ret: "subtractMonths g 1 = f"
    unfolding g_def subtractMonths_def using assms(7-9) by (rule addMonths_back)
  define c2 where "c2 = c1'\<lparr>months := ms2\<rparr>"
  have r: "nextPage props cal = Some (Inr (p1, c1)) \<and>
    watchDateCursor p1 c1 (UseCalendarProps.dateCursor p1) (UseCalendarProps.dateCursor props) =
      Some c1' \<and>
    prevPage p1 c1' = Some (Inr (p2, c1')) \<and>
    watchDateCursor p2 c1' (UseCalendarProps.dateCursor p2) (UseCalendarProps.dateCursor p1) =
      Some c2 \<and>
    months c2 \<noteq> [] \<and> MonthGrid.month (hd (months c2)) = f \<and>
    UseCalendarProps.dateCursor p2 = f"
    using n(1) w1(1) b(1,3,4) b(2,5) [unfolded ret]
    unfolding n(4) c1'_def [symmetric] c2_def by simp
  show ?thesis
    by (rule exI [of _ p1], rule exI [of _ c1], rule exI [of _ c1'], rule exI [of _ p2],
        rule exI [of _ c2]) (rule r)
qed

subsection \<open>The visible window after a page turn\<close>

text \<open>
  C1, evaluated at the example: \<open>prevPage\<close> computes the grids of December 2023 and writes
  the cursor, but returns the closure as it was; the visible window is still January 2024,
  not the month before it. (\<open>nextPage\<close> stores its grids, see \<open>nextPage_first_month\<close>; the
  window follows \<open>prevPage\<close> only once the watcher has run, see \<open>prevPage_then_watch\<close>.)
\<close>

theorem prevPage_leaves_window:
  "prevPage exampleProps exampleCalendar =
     Some (Inr (exampleProps\<lparr>UseCalendarProps.dateCursor :=
                  \<lparr>year = 2023, DateValue.month = 12, day = 1\<rparr>\<rparr>, exampleCalendar)) \<and>
   visibleMonths exampleCalendar = [\<lparr>year = 2024, DateValue.month = 1, day = 1\<rparr>]"
proof -
  have "prevPage exampleProps exampleCalendar =
     Some (Inr (exampleProps\<lparr>UseCalendarProps.dateCursor :=
                  \<lparr>year = 2023, DateValue.month = 12, day = 1\<rparr>\<rparr>, exampleCalendar))"
    using prevPage_keeps_months [OF example_first(1) example_config(1-3)]
    unfolding example_first(2) by (simp only: example_config(4) if_False jan_minus_one)
  moreover have "visibleMonths exampleCalendar = [\<lparr>year = 2024, DateValue.month = 1, day = 1\<rparr>]"
    by (simp add: visibleMonths_def exampleCalendar_def)
  ultimately show ?thesis by (rule conjI)
qed

text \<open>
  C4, evaluated at the example (navigation by one month, no bounds): \<open>nextPage\<close> followed
  by \<open>prevPage\<close> leaves February 2024 visible, not January: \<open>prevPage\<close> moves the cursor
  back to 1 January and keeps the closure, and the watcher, called with the cursor and the
  value it saw before the two calls (15 January), finds the same month and rebuilds nothing.
  (When the watcher runs between the two calls the window does return, see
  \<open>nextPage_prevPage_with_watcher\<close>.)
\<close>

theorem nextPage_prevPage_window:
  "nextPage exampleProps exampleCalendar =
     Some (Inr (exampleProps\<lparr>UseCalendarProps.dateCursor :=
                  \<lparr>year = 2024, DateValue.month = 2, day = 1\<rparr>\<rparr>, exampleCalendarFeb)) \<and>
   prevPage (exampleProps\<lparr>UseCalendarProps.dateCursor :=
                  \<lparr>year = 2024, DateValue.month = 2, day = 1\<rparr>\<rparr>) exampleCalendarFeb =
     Some (Inr (exampleProps\<lparr>UseCalendarProps.dateCursor :=
                  \<lparr>year = 2024, DateValue.month = 1, day = 1\<rparr>\<rparr>, exampleCalendarFeb)) \<and>
   watchDateCursor (exampleProps\<lparr>UseCalendarProps.dateCursor :=
                  \<lparr>year = 2024, DateValue.month = 1, day = 1\<rparr>\<rparr>) exampleCalendarFeb
       \<lparr>year = 2024, DateValue.month = 1, day = 1\<rparr>
       \<lparr>year = 2024, DateValue.month = 1, day = 15\<rparr> = Some exampleCalendarFeb \<and>
   visibleMonths exampleCalendarFeb = [\<lparr>year = 2024, DateValue.month = 2, day = 1\<rparr>] \<and>
   visibleMonths exampleCalendar = [\<lparr>year = 2024, DateValue.month = 1, day = 1\<rparr>]"
proof -
  define p1 where "p1 = exampleProps\<lparr>UseCalendarProps.dateCursor :=
                  \<lparr>year = 2024, DateValue.month = 2, day = 1\<rparr>\<rparr>"
  have c: "0 \<le> weekStartsOn p1" "weekStartsOn p1 \<le> 6" "1 \<le> numberOfMonths p1"
    and np: "\<not> pagedNavigation p1"
    by (simp_all add: p1_def exampleProps_def)
  have "prevPage p1 exampleCalendarFeb =
     Some (Inr (p1\<lparr>UseCalendarProps.dateCursor :=
                  \<lparr>year = 2024, DateValue.month = 1, day = 1\<rparr>\<rparr>, exampleCalendarFeb))"
    using prevPage_keeps_months [OF example_first_feb(1) c]
    unfolding example_first_feb(2) by (simp only: np if_False feb_minus_one)
  then have b: "prevPage (exampleProps\<lparr>UseCalendarProps.dateCursor :=
                  \<lparr>year = 2024, DateValue.month = 2, day = 1\<rparr>\<rparr>) exampleCalendarFeb =
     Some (Inr (exampleProps\<lparr>UseCalendarProps.dateCursor :=
                  \<lparr>year = 2024, DateValue.month = 1, day = 1\<rparr>\<rparr>, exampleCalendarFeb))"
    unfolding p1_def by simp
  have "isSameMonth \<lparr>year = 2024, DateValue.month = 1, day = 1\<rparr>
      \<lparr>year = 2024, DateValue.month = 1, day = 15\<rparr>"
    by (simp add: isSameMonth_def startOfMonth_def)
  then have w: "watchDateCursor (exampleProps\<lparr>UseCalendarProps.dateCursor :=
                  \<lparr>year = 2024, DateValue.month = 1, day = 1\<rparr>\<rparr>) exampleCalendarFeb
       \<lparr>year = 2024, DateValue.month = 1, day = 1\<rparr>
       \<lparr>year = 2024, DateValue.month = 1, day = 15\<rparr> = Some exampleCalendarFeb"
    by (rule watchDateCursor_same_month)
  have v: "visibleMonths exampleCalendarFeb = [\<lparr>year = 2024, DateValue.month = 2, day = 1\<rparr>]"
    "visibleMonths exampleCalendar = [\<lparr>year = 2024, DateValue.month = 1, day = 1\<rparr>]"
    by (simp_all add: visibleMonths_def exampleCalendarFeb_def exampleCalendar_def)
  from nextPage_example b w v show ?thesis by (intro conjI)
qed

lemma nextPage_sets_cursor:
  assumes "months cal \<noteq> []"
    and "0 \<le> weekStartsOn props" "weekStartsOn props \<le> 6" "1 \<le> numberOfMonths props"
  shows "\<exists>props' cal'. nextPage props cal = Some (Inr (props', cal')) \<and>
            months cal' \<noteq> [] \<and>
            UseCalendarProps.dateCursor props' =
              startOfMonth (MonthGrid.month (hd (months cal')))"
proof -
  from assms(1) obtain g gs where g: "months cal = g # gs" by (cases "months cal") simp_all
  from hd_month_page [OF assms(2-4), of "MonthGrid.month g"
      "if pagedNavigation props then numberOfMonths props else 1"]
  obtain n ns where
    n: "createMonths (addMonths (MonthGrid.month g)
        (if pagedNavigation props then numberOfMonths props else 1))
      (localeId props) (fixedWeeks props) (weekStartsOn props) (numberOfMonths props) =
      Some (n # ns)" by blast
  have "nextPage props cal =
      Some (Inr (props\<lparr>UseCalendarProps.dateCursor := startOfMonth (MonthGrid.month n)\<rparr>,
                 cal\<lparr>months := n # ns\<rparr>))"
    using g n by (rule nextPage_result)
  then show ?thesis by simp
qed

text \<open>
  C3, evaluated at the example: \<open>prevPage\<close> writes to the cursor 1 December 2023, the start
  of the first month of the grids it computed, and returns the window as it was: the first
  visible month is still January 2024, so the cursor is not the start of the first visible
  month. (\<open>nextPage\<close> stores its grids, and the cursor it writes is the start of the new
  first visible month, see \<open>nextPage_sets_cursor\<close>.)
\<close>

theorem prevPage_cursor_not_window:
  "prevPage exampleProps exampleCalendar =
     Some (Inr (exampleProps\<lparr>UseCalendarProps.dateCursor :=
                  \<lparr>year = 2023, DateValue.month = 12, day = 1\<rparr>\<rparr>, exampleCalendar)) \<and>
   startOfMonth (MonthGrid.month (hd (months exampleCalendar))) =
     \<lparr>year = 2024, DateValue.month = 1, day = 1\<rparr> \<and>
   UseCalendarProps.dateCursor (exampleProps\<lparr>UseCalendarProps.dateCursor :=
                  \<lparr>year = 2023, DateValue.month = 12, day = 1\<rparr>\<rparr>) \<noteq>
     startOfMonth (MonthGrid.month (hd (months exampleCalendar)))"
proof -
  have s: "startOfMonth (MonthGrid.month (hd (months exampleCalendar))) =
     \<lparr>year = 2024, DateValue.month = 1, day = 1\<rparr>"
    unfolding example_first(2) by (simp add: startOfMonth_def)
  have "UseCalendarProps.dateCursor (exampleProps\<lparr>UseCalendarProps.dateCursor :=
                  \<lparr>year = 2023, DateValue.month = 12, day = 1\<rparr>\<rparr>) \<noteq>
     startOfMonth (MonthGrid.month (hd (months exampleCalendar)))"
    unfolding s by simp
  with prevPage_example s show ?thesis by (intro conjI)
qed

section \<open>The navigation buttons\<close>

text \<open>
  C2, as the code has it. \<open>isNextButtonDisabled\<close> is true exactly when \<open>maxValue\<close> is set,
  at least one month is visible, and either the calendar is disabled or the start of the
  month after the last visible month is strictly after \<open>maxValue\<close>. Without \<open>maxValue\<close>, or
  with no month visible, it is false, also for a disabled calendar.
\<close>

theorem isNextButtonDisabled_exact:
  "isNextButtonDisabled props cal =
     (case Calendar.maxValue cal of
        None \<Rightarrow> False
      | Some maxV \<Rightarrow> months cal \<noteq> [] \<and>
          (disabled props \<or>
           isAfter (startOfMonth (addMonths (MonthGrid.month (last (months cal))) 1)) maxV))"
  by (auto simp add: isNextButtonDisabled_def Let_def split: option.splits)

theorem isNextButtonDisabled_exact_witness:
  "isNextButtonDisabled exampleProps
     (exampleCalendar\<lparr>Calendar.maxValue := Some \<lparr>year = 2024, DateValue.month = 1, day = 31\<rparr>\<rparr>) \<and>
   \<not> isNextButtonDisabled exampleProps
     (exampleCalendar\<lparr>Calendar.maxValue := Some \<lparr>year = 2024, DateValue.month = 2, day = 1\<rparr>\<rparr>) \<and>
   isNextButtonDisabled (exampleProps\<lparr>disabled := True\<rparr>)
     (exampleCalendar\<lparr>Calendar.maxValue := Some \<lparr>year = 2024, DateValue.month = 2, day = 1\<rparr>\<rparr>)"
  using example_first(1) feb1_jan31
  by (simp add: isNextButtonDisabled_exact example_last jan_plus_one feb_start exampleProps_def)

theorem isNextButtonDisabled_counterexample:
  "disabled (exampleProps\<lparr>disabled := True\<rparr>) \<and>
   \<not> isNextButtonDisabled (exampleProps\<lparr>disabled := True\<rparr>) exampleCalendar"
  by (simp add: isNextButtonDisabled_def exampleCalendar_def)

text \<open>
  C6, as the code has it. \<open>isPrevButtonDisabled\<close> is true exactly when \<open>minValue\<close> is set,
  at least one month is visible, and either the calendar is disabled or the end of the
  month before the first visible month is strictly before \<open>minValue\<close>. Without \<open>minValue\<close>,
  or with no month visible, it is false, also for a disabled calendar.
\<close>

theorem isPrevButtonDisabled_exact:
  "isPrevButtonDisabled props cal =
     (case Calendar.minValue cal of
        None \<Rightarrow> False
      | Some minV \<Rightarrow> months cal \<noteq> [] \<and>
          (disabled props \<or>
           isBefore (endOfMonth (subtractMonths (MonthGrid.month (hd (months cal))) 1)) minV))"
  by (auto simp add: isPrevButtonDisabled_def Let_def split: option.splits)

theorem isPrevButtonDisabled_exact_witness:
  "isPrevButtonDisabled exampleProps
     (exampleCalendar\<lparr>Calendar.minValue := Some \<lparr>year = 2024, DateValue.month = 1, day = 1\<rparr>\<rparr>) \<and>
   \<not> isPrevButtonDisabled exampleProps
     (exampleCalendar\<lparr>Calendar.minValue := Some \<lparr>year = 2023, DateValue.month = 12, day = 31\<rparr>\<rparr>) \<and>
   isPrevButtonDisabled (exampleProps\<lparr>disabled := True\<rparr>)
     (exampleCalendar\<lparr>Calendar.minValue := Some \<lparr>year = 2023, DateValue.month = 12, day = 31\<rparr>\<rparr>)"
  using example_first dec31_jan1
  by (simp add: isPrevButtonDisabled_exact dec_end exampleProps_def)

theorem isPrevButtonDisabled_counterexample:
  "disabled (exampleProps\<lparr>disabled := True\<rparr>) \<and>
   \<not> isPrevButtonDisabled (exampleProps\<lparr>disabled := True\<rparr>) exampleCalendar"
  by (simp add: isPrevButtonDisabled_def exampleCalendar_def)

section \<open>Construction\<close>

text \<open>
  C7, as the code has it. \<open>useCalendar\<close> checks neither \<open>numberOfMonths\<close> nor
  \<open>weekStartsOn\<close>: with \<open>numberOfMonths\<close> below 1 construction is not rejected, it returns a
  controller, whatever \<open>weekStartsOn\<close> is.
\<close>

theorem useCalendar_accepts:
  assumes "numberOfMonths props < 1"
  shows "\<exists>ms. useCalendar props = Some (Inr
        \<lparr>Calendar.dateCursor = UseCalendarProps.dateCursor props,
         Calendar.minValue = map_option (setFields (UseCalendarProps.dateCursor props))
           (UseCalendarProps.minValue props),
         Calendar.maxValue = map_option (setFields (UseCalendarProps.dateCursor props))
           (UseCalendarProps.maxValue props),
         months = ms\<rparr>)"
  using assms by (simp add: useCalendar_def createMonths_empty Let_def)

theorem useCalendar_accepts_witness:
  "numberOfMonths (exampleProps\<lparr>numberOfMonths := - 2, weekStartsOn := 9\<rparr>) < 1 \<and>
   (\<exists>ms. useCalendar (exampleProps\<lparr>numberOfMonths := - 2, weekStartsOn := 9\<rparr>) =
      Some (Inr (exampleCalendar\<lparr>months := ms\<rparr>)))"
proof -
  have n: "numberOfMonths (exampleProps\<lparr>numberOfMonths := - 2, weekStartsOn := 9\<rparr>) < 1"
    by simp
  from useCalendar_accepts [OF n] obtain ms where
    "useCalendar (exampleProps\<lparr>numberOfMonths := - 2, weekStartsOn := 9\<rparr>) =
      Some (Inr (exampleCalendar\<lparr>months := ms\<rparr>))"
    by (auto simp add: exampleProps_def exampleCalendar_def setFields_def)
  with n show ?thesis by (intro conjI exI [of _ ms])
qed

theorem useCalendar_counterexample:
  "numberOfMonths (exampleProps\<lparr>numberOfMonths := 0\<rparr>) < 1 \<and>
   useCalendar (exampleProps\<lparr>numberOfMonths := 0\<rparr>) \<noteq> None \<and>
   useCalendar (exampleProps\<lparr>numberOfMonths := 0\<rparr>) \<noteq> Some (Inl TypeError) \<and>
   \<not> (0 \<le> weekStartsOn (exampleProps\<lparr>numberOfMonths := 0, weekStartsOn := 7\<rparr>) \<and>
      weekStartsOn (exampleProps\<lparr>numberOfMonths := 0, weekStartsOn := 7\<rparr>) \<le> 6) \<and>
   useCalendar (exampleProps\<lparr>numberOfMonths := 0, weekStartsOn := 7\<rparr>) \<noteq> None \<and>
   useCalendar (exampleProps\<lparr>numberOfMonths := 0, weekStartsOn := 7\<rparr>) \<noteq> Some (Inl TypeError)"
  by (simp add: useCalendar_def createMonths_empty exampleProps_def Let_def)

section \<open>The bounds\<close>

lemma nextPage_bounds:
  assumes "nextPage props cal = Some (Inr (props', cal'))"
  shows "Calendar.minValue cal' = Calendar.minValue cal \<and>
    Calendar.maxValue cal' = Calendar.maxValue cal"
proof (cases "months cal")
  case Nil
  with assms show ?thesis by (simp add: nextPage_def)
next
  case (Cons g gs)
  show ?thesis
  proof (cases "createMonths
      (addMonths (MonthGrid.month g) (if pagedNavigation props then numberOfMonths props else 1))
      (localeId props) (fixedWeeks props) (weekStartsOn props) (numberOfMonths props)")
    case None
    with assms Cons show ?thesis by (simp add: nextPage_def)
  next
    case (Some ms)
    with assms Cons show ?thesis by (cases ms) (auto simp add: nextPage_def)
  qed
qed

lemma prevPage_same:
  assumes "prevPage props cal = Some (Inr (props', cal'))"
  shows "cal' = cal"
proof (cases "months cal")
  case Nil
  with assms show ?thesis by (simp add: prevPage_def)
next
  case (Cons g gs)
  show ?thesis
  proof (cases "createMonths
      (subtractMonths (MonthGrid.month g)
        (if pagedNavigation props then numberOfMonths props else 1))
      (localeId props) (fixedWeeks props) (weekStartsOn props) (numberOfMonths props)")
    case None
    with assms Cons show ?thesis by (simp add: prevPage_def)
  next
    case (Some ms)
    with assms Cons show ?thesis by (cases ms) (auto simp add: prevPage_def)
  qed
qed

lemma prevPage_bounds:
  assumes "prevPage props cal = Some (Inr (props', cal'))"
  shows "Calendar.minValue cal' = Calendar.minValue cal \<and>
    Calendar.maxValue cal' = Calendar.maxValue cal"
  using prevPage_same [OF assms] by simp

lemma watchDateCursor_bounds:
  assumes "watchDateCursor props cal v oldValue = Some cal'"
  shows "Calendar.minValue cal' = Calendar.minValue cal \<and>
    Calendar.maxValue cal' = Calendar.maxValue cal"
  using assms
  by (cases "createMonths (setFields (Calendar.dateCursor cal) v) (localeId props)
        (fixedWeeks props) (weekStartsOn props) (numberOfMonths props)")
    (auto simp add: watchDateCursor_def split: if_splits)

lemma useCalendar_bounds:
  assumes "useCalendar props = Some (Inr cal)"
  shows "Calendar.minValue cal =
      map_option (setFields (UseCalendarProps.dateCursor props)) (UseCalendarProps.minValue props) \<and>
    Calendar.maxValue cal =
      map_option (setFields (UseCalendarProps.dateCursor props)) (UseCalendarProps.maxValue props)"
  using assms
  by (cases "createMonths (UseCalendarProps.dateCursor props) (localeId props)
        (fixedWeeks props) (weekStartsOn props) (numberOfMonths props)")
    (auto simp add: useCalendar_def Let_def)

text \<open>
  C10. The bounds of the closure are those read at construction, no call changes them, and
  \<open>isDateDisabled\<close>, \<open>isNextButtonDisabled\<close> and \<open>isPrevButtonDisabled\<close> give the same result
  whatever \<open>minValue\<close> and \<open>maxValue\<close> the properties supply at the time of the call.
\<close>

theorem bounds_fixed_at_construction:
  "isDateDisabled (props\<lparr>UseCalendarProps.minValue := mn, UseCalendarProps.maxValue := mx\<rparr>)
      cal d = isDateDisabled props cal d \<and>
   isNextButtonDisabled (props\<lparr>UseCalendarProps.minValue := mn, UseCalendarProps.maxValue := mx\<rparr>)
      cal = isNextButtonDisabled props cal \<and>
   isPrevButtonDisabled (props\<lparr>UseCalendarProps.minValue := mn, UseCalendarProps.maxValue := mx\<rparr>)
      cal = isPrevButtonDisabled props cal \<and>
   (useCalendar propsAtStart = Some (Inr cal) \<longrightarrow>
      Calendar.minValue cal = map_option (setFields (UseCalendarProps.dateCursor propsAtStart))
        (UseCalendarProps.minValue propsAtStart) \<and>
      Calendar.maxValue cal = map_option (setFields (UseCalendarProps.dateCursor propsAtStart))
        (UseCalendarProps.maxValue propsAtStart)) \<and>
   (nextPage props cal = Some (Inr (propsNext, calNext)) \<longrightarrow>
      Calendar.minValue calNext = Calendar.minValue cal \<and>
      Calendar.maxValue calNext = Calendar.maxValue cal) \<and>
   (prevPage props cal = Some (Inr (propsPrev, calPrev)) \<longrightarrow>
      Calendar.minValue calPrev = Calendar.minValue cal \<and>
      Calendar.maxValue calPrev = Calendar.maxValue cal) \<and>
   (watchDateCursor props cal v oldValue = Some calWatched \<longrightarrow>
      Calendar.minValue calWatched = Calendar.minValue cal \<and>
      Calendar.maxValue calWatched = Calendar.maxValue cal)"
proof (intro conjI impI)
  show "isDateDisabled (props\<lparr>UseCalendarProps.minValue := mn, UseCalendarProps.maxValue := mx\<rparr>)
      cal d = isDateDisabled props cal d"
    by (simp add: isDateDisabled_def split: option.splits)
  show "isNextButtonDisabled
      (props\<lparr>UseCalendarProps.minValue := mn, UseCalendarProps.maxValue := mx\<rparr>) cal =
      isNextButtonDisabled props cal"
    by (simp add: isNextButtonDisabled_def split: option.splits)
  show "isPrevButtonDisabled
      (props\<lparr>UseCalendarProps.minValue := mn, UseCalendarProps.maxValue := mx\<rparr>) cal =
      isPrevButtonDisabled props cal"
    by (simp add: isPrevButtonDisabled_def split: option.splits)
qed (simp_all add: useCalendar_bounds nextPage_bounds prevPage_bounds watchDateCursor_bounds)

theorem bounds_fixed_at_construction_witness:
  "useCalendar exampleProps = Some (Inr exampleCalendar) \<and>
   nextPage exampleProps exampleCalendar =
     Some (Inr (exampleProps\<lparr>UseCalendarProps.dateCursor :=
                  \<lparr>year = 2024, DateValue.month = 2, day = 1\<rparr>\<rparr>, exampleCalendarFeb)) \<and>
   prevPage exampleProps exampleCalendar =
     Some (Inr (exampleProps\<lparr>UseCalendarProps.dateCursor :=
                  \<lparr>year = 2023, DateValue.month = 12, day = 1\<rparr>\<rparr>, exampleCalendar)) \<and>
   watchDateCursor exampleProps exampleCalendar
     \<lparr>year = 2024, DateValue.month = 1, day = 20\<rparr>
     \<lparr>year = 2024, DateValue.month = 1, day = 15\<rparr> = Some exampleCalendar \<and>
   isDateDisabled
     (exampleProps\<lparr>UseCalendarProps.minValue := Some \<lparr>year = 2024, DateValue.month = 1, day = 20\<rparr>,
        UseCalendarProps.maxValue := Some \<lparr>year = 2024, DateValue.month = 1, day = 10\<rparr>\<rparr>)
     exampleCalendar \<lparr>year = 2024, DateValue.month = 1, day = 15\<rparr> =
     isDateDisabled exampleProps exampleCalendar \<lparr>year = 2024, DateValue.month = 1, day = 15\<rparr> \<and>
   isNextButtonDisabled
     (exampleProps\<lparr>UseCalendarProps.minValue := Some \<lparr>year = 2024, DateValue.month = 1, day = 20\<rparr>,
        UseCalendarProps.maxValue := Some \<lparr>year = 2024, DateValue.month = 1, day = 10\<rparr>\<rparr>)
     exampleCalendar = isNextButtonDisabled exampleProps exampleCalendar \<and>
   isPrevButtonDisabled
     (exampleProps\<lparr>UseCalendarProps.minValue := Some \<lparr>year = 2024, DateValue.month = 1, day = 20\<rparr>,
        UseCalendarProps.maxValue := Some \<lparr>year = 2024, DateValue.month = 1, day = 10\<rparr>\<rparr>)
     exampleCalendar = isPrevButtonDisabled exampleProps exampleCalendar \<and>
   Calendar.minValue exampleCalendar =
     map_option (setFields (UseCalendarProps.dateCursor exampleProps))
       (UseCalendarProps.minValue exampleProps) \<and>
   Calendar.maxValue exampleCalendar =
     map_option (setFields (UseCalendarProps.dateCursor exampleProps))
       (UseCalendarProps.maxValue exampleProps) \<and>
   Calendar.minValue exampleCalendarFeb = Calendar.minValue exampleCalendar \<and>
   Calendar.maxValue exampleCalendarFeb = Calendar.maxValue exampleCalendar"
  using bounds_fixed_at_construction
    [where props = exampleProps
      and mn = "Some \<lparr>year = 2024, DateValue.month = 1, day = 20\<rparr>"
      and mx = "Some \<lparr>year = 2024, DateValue.month = 1, day = 10\<rparr>"
      and cal = exampleCalendar
      and d = "\<lparr>year = 2024, DateValue.month = 1, day = 15\<rparr>"
      and propsAtStart = exampleProps
      and propsNext = "exampleProps\<lparr>UseCalendarProps.dateCursor :=
         \<lparr>year = 2024, DateValue.month = 2, day = 1\<rparr>\<rparr>"
      and calNext = exampleCalendarFeb
      and propsPrev = "exampleProps\<lparr>UseCalendarProps.dateCursor :=
         \<lparr>year = 2023, DateValue.month = 12, day = 1\<rparr>\<rparr>"
      and calPrev = exampleCalendar
      and v = "\<lparr>year = 2024, DateValue.month = 1, day = 20\<rparr>"
      and oldValue = "\<lparr>year = 2024, DateValue.month = 1, day = 15\<rparr>"
      and calWatched = exampleCalendar]
    useCalendar_example nextPage_example prevPage_example watch_example
  by (intro conjI) (simp_all only: simp_thms)

section \<open>The heading\<close>

lemma en_labels:
  "fullMonthAndYear enFormatter \<lparr>year = 2024, DateValue.month = 6, day = 1\<rparr> = ''June 2024''"
  "fullMonth enFormatter \<lparr>year = 2024, DateValue.month = 6, day = 1\<rparr> = ''June''"
  "fullMonth enFormatter \<lparr>year = 2024, DateValue.month = 7, day = 1\<rparr> = ''July''"
  "fullMonth enFormatter \<lparr>year = 2024, DateValue.month = 12, day = 1\<rparr> = ''December''"
  "fullMonth enFormatter \<lparr>year = 2025, DateValue.month = 1, day = 1\<rparr> = ''January''"
  "fullYear enFormatter \<lparr>year = 2024, DateValue.month = 6, day = 1\<rparr> = ''2024''"
  "fullYear enFormatter \<lparr>year = 2024, DateValue.month = 7, day = 1\<rparr> = ''2024''"
  "fullYear enFormatter \<lparr>year = 2024, DateValue.month = 12, day = 1\<rparr> = ''2024''"
  "fullYear enFormatter \<lparr>year = 2025, DateValue.month = 1, day = 1\<rparr> = ''2025''"
  by code_simp+

lemma en_labels_dec:
  "fullMonthAndYear enFormatter \<lparr>year = 2024, DateValue.month = 12, day = 1\<rparr> =
     ''December 2024''"
  by code_simp

text \<open>
  C9. Let the formatter give the first visible month a month-and-year label made of its
  month name, a space and its year label, and let it give the first and the last visible
  month the same year label exactly when they are in the same year. Then, with at least one
  month visible, the heading is "month year" when exactly one month is visible; with several
  months it is "first month - last month year" when the first and last visible months have
  the same year, and "first month first year - last month last year" when their years
  differ.
\<close>

theorem headingValue_label:
  assumes "months cal \<noteq> []"
    and "formatter = useDateFormatter (localeId props)"
    and "startMonth = MonthGrid.month (hd (months cal))"
    and "endMonth = MonthGrid.month (last (months cal))"
    and "fullMonthAndYear formatter startMonth =
           fullMonth formatter startMonth @ '' '' @ fullYear formatter startMonth"
    and "(fullYear formatter startMonth = fullYear formatter endMonth) =
           (year startMonth = year endMonth)"
  shows "headingValue useDateFormatter props cal =
    (if length (months cal) = 1
       then fullMonth formatter startMonth @ '' '' @ fullYear formatter startMonth
     else if year startMonth = year endMonth
       then fullMonth formatter startMonth @ '' - '' @ fullMonth formatter endMonth @ '' '' @
            fullYear formatter endMonth
     else fullMonth formatter startMonth @ '' '' @ fullYear formatter startMonth @ '' - '' @
          fullMonth formatter endMonth @ '' '' @ fullYear formatter endMonth)"
proof -
  have "headingValue useDateFormatter props cal =
    (if length (months cal) = 1 then fullMonthAndYear formatter startMonth
     else if fullYear formatter startMonth = fullYear formatter endMonth
       then fullMonth formatter startMonth @ '' - '' @ fullMonth formatter endMonth @ '' '' @
            fullYear formatter endMonth
     else fullMonth formatter startMonth @ '' '' @ fullYear formatter startMonth @ '' - '' @
          fullMonth formatter endMonth @ '' '' @ fullYear formatter endMonth)"
    using assms(1) unfolding assms(2-4) by (simp add: headingValue_def Let_def)
  then show ?thesis unfolding assms(5,6) .
qed

theorem headingValue_label_witness:
  "headingValue (\<lambda>l. enFormatter) exampleProps
     (exampleCalendar\<lparr>months :=
        [\<lparr>MonthGrid.month = \<lparr>year = 2024, DateValue.month = 6, day = 1\<rparr>,
          dates = daysFrom \<lparr>year = 2024, DateValue.month = 5, day = 26\<rparr> 42\<rparr>]\<rparr>) = ''June 2024'' \<and>
   headingValue (\<lambda>l. enFormatter) exampleProps
     (exampleCalendar\<lparr>months :=
        [\<lparr>MonthGrid.month = \<lparr>year = 2024, DateValue.month = 6, day = 1\<rparr>,
          dates = daysFrom \<lparr>year = 2024, DateValue.month = 5, day = 26\<rparr> 42\<rparr>,
         \<lparr>MonthGrid.month = \<lparr>year = 2024, DateValue.month = 7, day = 1\<rparr>,
          dates = daysFrom \<lparr>year = 2024, DateValue.month = 6, day = 30\<rparr> 35\<rparr>]\<rparr>) =
     ''June - July 2024'' \<and>
   headingValue (\<lambda>l. enFormatter) exampleProps
     (exampleCalendar\<lparr>months :=
        [\<lparr>MonthGrid.month = \<lparr>year = 2024, DateValue.month = 12, day = 1\<rparr>,
          dates = daysFrom \<lparr>year = 2024, DateValue.month = 12, day = 1\<rparr> 35\<rparr>,
         \<lparr>MonthGrid.month = \<lparr>year = 2025, DateValue.month = 1, day = 1\<rparr>,
          dates = daysFrom \<lparr>year = 2024, DateValue.month = 12, day = 29\<rparr> 35\<rparr>]\<rparr>) =
     ''December 2024 - January 2025''"
proof -
  define june where "june = \<lparr>MonthGrid.month = \<lparr>year = 2024, DateValue.month = 6, day = 1\<rparr>,
          dates = daysFrom \<lparr>year = 2024, DateValue.month = 5, day = 26\<rparr> 42\<rparr>"
  define july where "july = \<lparr>MonthGrid.month = \<lparr>year = 2024, DateValue.month = 7, day = 1\<rparr>,
          dates = daysFrom \<lparr>year = 2024, DateValue.month = 6, day = 30\<rparr> 35\<rparr>"
  define december where "december =
         \<lparr>MonthGrid.month = \<lparr>year = 2024, DateValue.month = 12, day = 1\<rparr>,
          dates = daysFrom \<lparr>year = 2024, DateValue.month = 12, day = 1\<rparr> 35\<rparr>"
  define january where "january =
         \<lparr>MonthGrid.month = \<lparr>year = 2025, DateValue.month = 1, day = 1\<rparr>,
          dates = daysFrom \<lparr>year = 2024, DateValue.month = 12, day = 29\<rparr> 35\<rparr>"
  have m: "MonthGrid.month june = \<lparr>year = 2024, DateValue.month = 6, day = 1\<rparr>"
    "MonthGrid.month july = \<lparr>year = 2024, DateValue.month = 7, day = 1\<rparr>"
    "MonthGrid.month december = \<lparr>year = 2024, DateValue.month = 12, day = 1\<rparr>"
    "MonthGrid.month january = \<lparr>year = 2025, DateValue.month = 1, day = 1\<rparr>"
    by (simp_all add: june_def july_def december_def january_def)
  have y: "year \<lparr>year = 2024, DateValue.month = 6, day = 1\<rparr> = 2024"
    "year \<lparr>year = 2024, DateValue.month = 7, day = 1\<rparr> = 2024"
    "year \<lparr>year = 2024, DateValue.month = 12, day = 1\<rparr> = 2024"
    "year \<lparr>year = 2025, DateValue.month = 1, day = 1\<rparr> = 2025"
    by simp_all
  have a5: "fullMonthAndYear enFormatter \<lparr>year = 2024, DateValue.month = 6, day = 1\<rparr> =
      fullMonth enFormatter \<lparr>year = 2024, DateValue.month = 6, day = 1\<rparr> @ '' '' @
      fullYear enFormatter \<lparr>year = 2024, DateValue.month = 6, day = 1\<rparr>"
    unfolding en_labels by simp
  have c5: "fullMonthAndYear enFormatter \<lparr>year = 2024, DateValue.month = 12, day = 1\<rparr> =
      fullMonth enFormatter \<lparr>year = 2024, DateValue.month = 12, day = 1\<rparr> @ '' '' @
      fullYear enFormatter \<lparr>year = 2024, DateValue.month = 12, day = 1\<rparr>"
    unfolding en_labels en_labels_dec by simp
  have a6: "(fullYear enFormatter \<lparr>year = 2024, DateValue.month = 6, day = 1\<rparr> =
       fullYear enFormatter \<lparr>year = 2024, DateValue.month = 6, day = 1\<rparr>) =
      (year \<lparr>year = 2024, DateValue.month = 6, day = 1\<rparr> =
       year \<lparr>year = 2024, DateValue.month = 6, day = 1\<rparr>)"
    by simp
  have b6: "(fullYear enFormatter \<lparr>year = 2024, DateValue.month = 6, day = 1\<rparr> =
       fullYear enFormatter \<lparr>year = 2024, DateValue.month = 7, day = 1\<rparr>) =
      (year \<lparr>year = 2024, DateValue.month = 6, day = 1\<rparr> =
       year \<lparr>year = 2024, DateValue.month = 7, day = 1\<rparr>)"
    unfolding en_labels y by simp
  have c6: "(fullYear enFormatter \<lparr>year = 2024, DateValue.month = 12, day = 1\<rparr> =
       fullYear enFormatter \<lparr>year = 2025, DateValue.month = 1, day = 1\<rparr>) =
      (year \<lparr>year = 2024, DateValue.month = 12, day = 1\<rparr> =
       year \<lparr>year = 2025, DateValue.month = 1, day = 1\<rparr>)"
    unfolding en_labels y by simp
  have a: "headingValue (\<lambda>l. enFormatter) exampleProps (exampleCalendar\<lparr>months := [june]\<rparr>) =
      ''June 2024''"
  proof -
    have ne: "months (exampleCalendar\<lparr>months := [june]\<rparr>) \<noteq> []" by simp
    have s: "\<lparr>year = 2024, DateValue.month = 6, day = 1\<rparr> =
        MonthGrid.month (hd (months (exampleCalendar\<lparr>months := [june]\<rparr>)))"
      and e: "\<lparr>year = 2024, DateValue.month = 6, day = 1\<rparr> =
        MonthGrid.month (last (months (exampleCalendar\<lparr>months := [june]\<rparr>)))"
      and l: "length (months (exampleCalendar\<lparr>months := [june]\<rparr>)) = 1"
      by (simp_all add: m)
    show ?thesis
      unfolding headingValue_label [OF ne refl s e a5 a6] l en_labels by simp
  qed
  have b: "headingValue (\<lambda>l. enFormatter) exampleProps
      (exampleCalendar\<lparr>months := [june, july]\<rparr>) = ''June - July 2024''"
  proof -
    have ne: "months (exampleCalendar\<lparr>months := [june, july]\<rparr>) \<noteq> []" by simp
    have s: "\<lparr>year = 2024, DateValue.month = 6, day = 1\<rparr> =
        MonthGrid.month (hd (months (exampleCalendar\<lparr>months := [june, july]\<rparr>)))"
      and e: "\<lparr>year = 2024, DateValue.month = 7, day = 1\<rparr> =
        MonthGrid.month (last (months (exampleCalendar\<lparr>months := [june, july]\<rparr>)))"
      and l: "length (months (exampleCalendar\<lparr>months := [june, july]\<rparr>)) = 2"
      by (simp_all add: m)
    show ?thesis
      unfolding headingValue_label [OF ne refl s e a5 b6] l en_labels y by simp
  qed
  have c: "headingValue (\<lambda>l. enFormatter) exampleProps
      (exampleCalendar\<lparr>months := [december, january]\<rparr>) = ''December 2024 - January 2025''"
  proof -
    have ne: "months (exampleCalendar\<lparr>months := [december, january]\<rparr>) \<noteq> []" by simp
    have s: "\<lparr>year = 2024, DateValue.month = 12, day = 1\<rparr> =
        MonthGrid.month (hd (months (exampleCalendar\<lparr>months := [december, january]\<rparr>)))"
      and e: "\<lparr>year = 2025, DateValue.month = 1, day = 1\<rparr> =
        MonthGrid.month (last (months (exampleCalendar\<lparr>months := [december, january]\<rparr>)))"
      and l: "length (months (exampleCalendar\<lparr>months := [december, january]\<rparr>)) = 2"
      by (simp_all add: m)
    show ?thesis
      unfolding headingValue_label [OF ne refl s e c5 c6] l en_labels y by simp
  qed
  from a b c show ?thesis
    unfolding june_def july_def december_def january_def by (intro conjI)
qed

section \<open>The selection state\<close>

lemma isInvalidLoop_ex:
  "isInvalidLoop props ds =
     (\<exists>d \<in> set ds. callMatcher (UseCalendarStateProps.isDateDisabled props) d \<or>
        callMatcher (UseCalendarStateProps.isDateUnavailable props) d)"
  by (induction ds) auto

text \<open>
  C8. \<open>isInvalid\<close> is true exactly when the selected date, or some member of the selected
  array, is disabled or unavailable by the predicates supplied; with no selection and with
  an empty array it is false.
\<close>

theorem isInvalid_selection:
  "isInvalid props =
     (case selection props of
        Undefined \<Rightarrow> False
      | Single d \<Rightarrow> callMatcher (UseCalendarStateProps.isDateDisabled props) d \<or>
          callMatcher (UseCalendarStateProps.isDateUnavailable props) d
      | Array ds \<Rightarrow> (\<exists>d \<in> set ds. callMatcher (UseCalendarStateProps.isDateDisabled props) d \<or>
          callMatcher (UseCalendarStateProps.isDateUnavailable props) d))"
  by (auto simp add: isInvalid_def isInvalidLoop_ex split: Selection.splits)

theorem isInvalid_selection_witness:
  "isInvalid \<lparr>UseCalendarStateProps.isDateDisabled = Some (\<lambda>d. day d = 20),
     UseCalendarStateProps.isDateUnavailable = None,
     selection = Array [\<lparr>year = 2024, DateValue.month = 1, day = 15\<rparr>,
                        \<lparr>year = 2024, DateValue.month = 1, day = 20\<rparr>]\<rparr>
   \<and> \<not> isInvalid \<lparr>UseCalendarStateProps.isDateDisabled = Some (\<lambda>d. day d = 20),
     UseCalendarStateProps.isDateUnavailable = None, selection = Array []\<rparr>
   \<and> \<not> isInvalid \<lparr>UseCalendarStateProps.isDateDisabled = Some (\<lambda>d. day d = 20),
     UseCalendarStateProps.isDateUnavailable = None, selection = Undefined\<rparr>"
  by (simp add: isInvalid_selection callMatcher_def)

end
